theory Spec2Isabelle
  imports Main "HOL-Library.AList" "HOL-Library.Sublist"
begin

section \<open>Python strings, character classes and the regular expressions of the CLI\<close>

text \<open>
  A Python \<^verbatim>\<open>str\<close> is modelled as a \<^typ>\<open>string\<close>: a list of characters, each read as a
  code point below 256. On that alphabet the class \<^verbatim>\<open>\d\<close> of the \<^verbatim>\<open>re\<close> module is the ten
  ASCII digits, and the classes \<^verbatim>\<open>[a-zA-Z_]\<close> and \<^verbatim>\<open>[a-zA-Z0-9_]\<close> are what they enumerate.
\<close>

definition newline :: char where
  "newline = CHR 0x0A"

definition backslash :: char where
  "backslash = CHR 0x5C"

definition dquote :: char where
  "dquote = CHR 0x22"

definition ascii_lowercase :: string where
  "ascii_lowercase = ''abcdefghijklmnopqrstuvwxyz''"

definition ascii_uppercase :: string where
  "ascii_uppercase = ''ABCDEFGHIJKLMNOPQRSTUVWXYZ''"

definition ascii_digits :: string where
  "ascii_digits = ''0123456789''"

text \<open>The class \<^verbatim>\<open>\d\<close> (and \<^verbatim>\<open>0-9\<close>).\<close>

definition is_digit :: "char \<Rightarrow> bool" where
  "is_digit c = (c \<in> set ascii_digits)"

text \<open>The class \<^verbatim>\<open>[a-zA-Z_]\<close>.\<close>

definition is_ident_start :: "char \<Rightarrow> bool" where
  "is_ident_start c = (c \<in> set (ascii_lowercase @ ascii_uppercase @ ''_''))"

text \<open>The class \<^verbatim>\<open>[a-zA-Z0-9_]\<close>.\<close>

definition is_ident_char :: "char \<Rightarrow> bool" where
  "is_ident_char c = (c \<in> set (ascii_lowercase @ ascii_uppercase @ ascii_digits @ ''_''))"

text \<open>
  \<^verbatim>\<open>str.isdigit()\<close> on one character: below code point 256 it holds of the ASCII digits and
  of the three superscript digits U+00B2, U+00B3 and U+00B9.
\<close>

definition isdigit :: "char \<Rightarrow> bool" where
  "isdigit c = (is_digit c \<or> c \<in> {CHR 0xB2, CHR 0xB3, CHR 0xB9})"

text \<open>
  The regular expressions of \<^verbatim>\<open>cli/main.py\<close> are built from four pieces, written here in
  continuation style: the matcher of a piece takes the matcher \<open>k\<close> of what follows it in
  the pattern. \<^verbatim>\<open>re.match\<close> anchors at the start of the string, so \<^verbatim>\<open>^\<close> adds nothing.
  \<^item> \<open>re_char P k\<close>: one character of the class \<open>P\<close>, then \<open>k\<close>;
  \<^item> \<open>re_star P k\<close>: \<^verbatim>\<open>P*\<close>, greedy with backtracking: one more character of \<open>P\<close> where
    that leads to a match, else \<open>k\<close> from here;
  \<^item> \<open>re_plus P k\<close>: \<^verbatim>\<open>P+\<close>;
  \<^item> \<open>re_dollar\<close>: \<^verbatim>\<open>$\<close> without \<^verbatim>\<open>re.MULTILINE\<close>, which matches at the end of the string
    and also just before a line feed that is the last character of the string.
\<close>

definition re_char :: "(char \<Rightarrow> bool) \<Rightarrow> (string \<Rightarrow> bool) \<Rightarrow> string \<Rightarrow> bool" where
  "re_char P k s = (case s of [] \<Rightarrow> False | c # cs \<Rightarrow> P c \<and> k cs)"

fun re_star :: "(char \<Rightarrow> bool) \<Rightarrow> (string \<Rightarrow> bool) \<Rightarrow> string \<Rightarrow> bool" where
  "re_star P k [] = k []"
| "re_star P k (c # cs) = ((P c \<and> re_star P k cs) \<or> k (c # cs))"

definition re_plus :: "(char \<Rightarrow> bool) \<Rightarrow> (string \<Rightarrow> bool) \<Rightarrow> string \<Rightarrow> bool" where
  "re_plus P k = re_char P (re_star P k)"

definition re_dollar :: "string \<Rightarrow> bool" where
  "re_dollar s = (s = [] \<or> s = [newline])"

text \<open>\<^verbatim>\<open>re.match(r"^[a-zA-Z_][a-zA-Z0-9_]*$", name)\<close>, as a truth value.\<close>

definition match_project_name :: "string \<Rightarrow> bool" where
  "match_project_name = re_char is_ident_start (re_star is_ident_char re_dollar)"

text \<open>\<^verbatim>\<open>re.match(r"^\d+\.\d+$", version)\<close>, as a truth value.\<close>

definition match_python_version :: "string \<Rightarrow> bool" where
  "match_python_version =
     re_plus is_digit (re_char (\<lambda>c. c = CHR ''.'') (re_plus is_digit re_dollar))"

text \<open>
  \<^verbatim>\<open>re.sub(pattern, repl, s)\<close> for a pattern that is one character class \<open>P\<close>: every
  character of the class is replaced by \<open>repl\<close>, the others are kept.
\<close>

fun re_sub_class :: "(char \<Rightarrow> bool) \<Rightarrow> string \<Rightarrow> string \<Rightarrow> string" where
  "re_sub_class P repl [] = []"
| "re_sub_class P repl (c # cs) = (if P c then repl else [c]) @ re_sub_class P repl cs"

text \<open>\<^verbatim>\<open>re.sub(r"[^a-zA-Z0-9_]", "_", s)\<close>, used for the name suggestion and for \<^verbatim>\<open>"."\<close>.\<close>

definition sub_non_ident :: "string \<Rightarrow> string" where
  "sub_non_ident s = re_sub_class (\<lambda>c. \<not> is_ident_char c) ''_'' s"

text \<open>\<^verbatim>\<open>str.startswith\<close> and \<^verbatim>\<open>str.endswith\<close>.\<close>

definition startswith :: "string \<Rightarrow> string \<Rightarrow> bool" where
  "startswith s p = (take (length p) s = p)"

definition endswith :: "string \<Rightarrow> string \<Rightarrow> bool" where
  "endswith s p = (length p \<le> length s \<and> drop (length s - length p) s = p)"

section \<open>Validation of the project name and of the Python version\<close>

text \<open>
  \<^verbatim>\<open>keyword.kwlist\<close>: the keywords of the language (\<^verbatim>\<open>keyword.iskeyword\<close> tests membership).
\<close>

definition kwlist :: "string list" where
  "kwlist = [''False'', ''None'', ''True'', ''and'', ''as'', ''assert'', ''async'', ''await'',
     ''break'', ''class'', ''continue'', ''def'', ''del'', ''elif'', ''else'', ''except'',
     ''finally'', ''for'', ''from'', ''global'', ''if'', ''import'', ''in'', ''is'', ''lambda'',
     ''nonlocal'', ''not'', ''or'', ''pass'', ''raise'', ''return'', ''try'', ''while'', ''with'',
     ''yield'']"

definition iskeyword :: "string \<Rightarrow> bool" where
  "iskeyword s = (s \<in> set kwlist)"

text \<open>The module constant \<^verbatim>\<open>_RESERVED_NAMES\<close>.\<close>

definition RESERVED_NAMES :: "string set" where
  "RESERVED_NAMES = {''__init__'', ''__main__'', ''__pycache__'', ''test'', ''tests'', ''setup'',
     ''site''}"

text \<open>
  Each validator prints one message and raises \<^verbatim>\<open>typer.Exit(code=1)\<close>; the model returns
  which message it was. \<^verbatim>\<open>sys.stdlib_module_names\<close> belongs to the interpreter that runs the
  tool, so it is a parameter \<open>stdlib\<close> of the model.
\<close>

datatype cli_error =
    InvalidProjectName string string
  | KeywordName string
  | DunderName string
  | ReservedName string
  | InvalidPythonVersion string
  | ProjectNameRequired

definition validate_project_name :: "string set \<Rightarrow> string \<Rightarrow> cli_error + unit" where
  "validate_project_name stdlib name =
     (if \<not> match_project_name name then Inl (InvalidProjectName name (sub_non_ident name))
      else if iskeyword name then Inl (KeywordName name)
      else if startswith name ''__'' \<and> endswith name ''__'' then Inl (DunderName name)
      else if name \<in> RESERVED_NAMES \<or> name \<in> stdlib then Inl (ReservedName name)
      else Inr ())"

definition validate_python_version :: "string \<Rightarrow> cli_error + unit" where
  "validate_python_version version =
     (if \<not> match_python_version version then Inl (InvalidPythonVersion version) else Inr ())"

section \<open>The configuration and its resolution in \<^verbatim>\<open>new\<close>\<close>

text \<open>
  The configuration dictionary of \<^verbatim>\<open>new\<close> has a fixed set of keys; a value is \<^verbatim>\<open>None\<close>
  until the command line, the defaults or a prompt supplies it. The key \<^verbatim>\<open>_use_cwd\<close> is
  the field \<open>use_cwd\<close>, read with \<^verbatim>\<open>config.get\<close>: an absent key reads as \<^verbatim>\<open>None\<close>.
\<close>

record config =
  name :: "string option"
  description :: "string option"
  author :: "string option"
  python :: "string option"
  ci :: "bool option"
  devcontainer :: "bool option"
  precommit :: "bool option"
  docker :: "bool option"
  diagrams :: "bool option"
  continue :: "bool option"
  use_cwd :: "bool option"

text \<open>
  The constants of \<^verbatim>\<open>devstart.defaults\<close>. The module is not among the source files, so
  its four constants are a parameter of every function that reads them.
\<close>

record defaults =
  DEFAULT_AUTHOR :: string
  DEFAULT_DESCRIPTION :: string
  DEFAULT_PROJECT_NAME :: string
  DEFAULT_PYTHON_VERSION :: string

text \<open>Truthiness of an optional flag: \<^verbatim>\<open>None\<close> and \<^verbatim>\<open>False\<close> are false.\<close>

definition truthy :: "bool option \<Rightarrow> bool" where
  "truthy b = (b = Some True)"

text \<open>\<^verbatim>\<open>x or d\<close> on an optional string: \<^verbatim>\<open>None\<close> and the empty string are false.\<close>

definition str_or :: "string option \<Rightarrow> string \<Rightarrow> string" where
  "str_or x d = (case x of None \<Rightarrow> d | Some s \<Rightarrow> if s = [] then d else s)"

text \<open>
  Lines 143--154 of \<^verbatim>\<open>new\<close>: the name \<^verbatim>\<open>"."\<close> stands for the current directory, whose
  base name \<open>cwd_name\<close> (\<^verbatim>\<open>Path.cwd().name\<close>) gives the project name.
\<close>

definition resolve_name :: "defaults \<Rightarrow> string \<Rightarrow> config \<Rightarrow> config" where
  "resolve_name D cwd_name config =
     (if name config = Some ''.'' then
        let converted = sub_non_ident cwd_name;
            converted = (if converted = [] then DEFAULT_PROJECT_NAME D
                         else if isdigit (hd converted) then ''_'' @ converted
                         else converted)
        in config\<lparr>name := Some converted, use_cwd := Some True\<rparr>
      else config\<lparr>use_cwd := Some False\<rparr>)"

text \<open>Lines 157--171 of \<^verbatim>\<open>new\<close>: the branch taken under \<^verbatim>\<open>--no-interactive\<close>.\<close>

definition apply_defaults :: "defaults \<Rightarrow> config \<Rightarrow> config" where
  "apply_defaults D config =
     (let config = config\<lparr>name := Some (str_or (name config) (DEFAULT_PROJECT_NAME D))\<rparr>;
          config = config\<lparr>description :=
                      Some (str_or (description config) (DEFAULT_DESCRIPTION D))\<rparr>;
          config = config\<lparr>author := Some (str_or (author config) (DEFAULT_AUTHOR D))\<rparr>;
          config = (if ci config = None then config\<lparr>ci := Some True\<rparr> else config);
          config = (if devcontainer config = None then config\<lparr>devcontainer := Some True\<rparr>
                    else config);
          config = (if precommit config = None then config\<lparr>precommit := Some True\<rparr>
                    else config);
          config = (if docker config = None then config\<lparr>docker := Some True\<rparr> else config);
          config = (if diagrams config = None then config\<lparr>diagrams := Some True\<rparr>
                    else config);
          config = (if continue config = None then config\<lparr>continue := Some True\<rparr>
                    else config)
      in config)"

text \<open>
  The interactive prompts. A prompt of \<^verbatim>\<open>rich\<close> returns what the user answers, or its
  default when the user only presses the return key: a reply is \<open>None\<close> for the return key
  alone. One reply per prompt that \<^verbatim>\<open>prompt_for_config\<close> can show.
\<close>

record replies =
  reply_name :: "string option"
  reply_description :: "string option"
  reply_author :: "string option"
  reply_python :: "string option"
  reply_ci :: "bool option"
  reply_devcontainer :: "bool option"
  reply_precommit :: "bool option"
  reply_docker :: "bool option"
  reply_diagrams :: "bool option"

definition ask :: "'a option \<Rightarrow> 'a \<Rightarrow> 'a" where
  "ask reply dflt = (case reply of None \<Rightarrow> dflt | Some v \<Rightarrow> v)"

definition prompt_for_config :: "defaults \<Rightarrow> replies \<Rightarrow> config \<Rightarrow> config" where
  "prompt_for_config D r config =
     (let config = (if name config = None
                    then config\<lparr>name := Some (ask (reply_name r) (DEFAULT_PROJECT_NAME D))\<rparr>
                    else config);
          config = (if description config = None
                    then config\<lparr>description :=
                           Some (ask (reply_description r) (DEFAULT_DESCRIPTION D))\<rparr>
                    else config);
          config = (if author config = None
                    then config\<lparr>author := Some (ask (reply_author r) (DEFAULT_AUTHOR D))\<rparr>
                    else config);
          config = (if python config = None
                    then config\<lparr>python :=
                           Some (ask (reply_python r) (DEFAULT_PYTHON_VERSION D))\<rparr>
                    else config);
          config = (if ci config = None
                    then config\<lparr>ci := Some (ask (reply_ci r) True)\<rparr> else config);
          config = (if devcontainer config = None
                    then config\<lparr>devcontainer := Some (ask (reply_devcontainer r) True)\<rparr>
                    else config);
          config = (if precommit config = None
                    then config\<lparr>precommit := Some (ask (reply_precommit r) True)\<rparr>
                    else config);
          config = (if docker config = None
                    then config\<lparr>docker := Some (ask (reply_docker r) True)\<rparr> else config);
          config = (if diagrams config = None
                    then config\<lparr>diagrams := Some (ask (reply_diagrams r) True)\<rparr>
                    else config)
      in config)"

text \<open>Lines 156--173 of \<^verbatim>\<open>new\<close>: defaults under \<^verbatim>\<open>--no-interactive\<close>, prompts otherwise.\<close>

definition resolve_config :: "defaults \<Rightarrow> replies \<Rightarrow> bool \<Rightarrow> config \<Rightarrow> config" where
  "resolve_config D r no_interactive config =
     (if no_interactive then apply_defaults D config else prompt_for_config D r config)"

text \<open>\<^verbatim>\<open>str(x)\<close> on an optional string: \<^verbatim>\<open>str(None)\<close> is the text \<^verbatim>\<open>None\<close>.\<close>

definition str_of :: "string option \<Rightarrow> string" where
  "str_of x = (case x of None \<Rightarrow> ''None'' | Some s \<Rightarrow> s)"

text \<open>
  Lines 175--180 of \<^verbatim>\<open>new\<close>: the name must be a string, then the two validators run in
  this order; the first that fails ends the command.
\<close>

definition validate :: "string set \<Rightarrow> config \<Rightarrow> cli_error + unit" where
  "validate stdlib config =
     (case name config of
        None \<Rightarrow> Inl ProjectNameRequired
      | Some project_name \<Rightarrow>
          (case validate_project_name stdlib project_name of
             Inl e \<Rightarrow> Inl e
           | Inr u \<Rightarrow> validate_python_version (str_of (python config))))"

section \<open>Escaping for the build descriptor\<close>

text \<open>\<^verbatim>\<open>s.replace(old, new)\<close> for a one-character \<open>old\<close>.\<close>

fun replace_char :: "string \<Rightarrow> char \<Rightarrow> string \<Rightarrow> string" where
  "replace_char [] old new = []"
| "replace_char (c # cs) old new = (if c = old then new else [c]) @ replace_char cs old new"

text \<open>
  \<^verbatim>\<open>_escape_toml_string\<close>: every backslash is doubled, then every double quote gets a
  backslash in front of it.
\<close>

definition escape_toml_string :: "string \<Rightarrow> string" where
  "escape_toml_string v =
     replace_char (replace_char v backslash [backslash, backslash]) dquote [backslash, dquote]"

text \<open>
  The reader's side of the round trip is the basic string of TOML 1.0.0, the format of
  the build descriptor (\<^verbatim>\<open>tomllib\<close> reads it in the tests): a double quote, then characters
  up to the closing double quote. A backslash starts an escape sequence; the control
  characters U+0000 to U+0008, U+000A to U+001F and U+007F may not stand unescaped.
  \<open>toml_basic_string s\<close> is the decoded text with what follows the closing quote, or
  \<open>None\<close> where \<open>s\<close> does not start with a basic string.
\<close>

definition toml_illegal :: "char \<Rightarrow> bool" where
  "toml_illegal c = (let n = (of_char c :: nat) in (n < 32 \<and> n \<noteq> 9) \<or> n = 127)"

definition toml_escape_char :: "char \<Rightarrow> char option" where
  "toml_escape_char e =
     (if e = CHR ''b'' then Some (CHR 0x08)
      else if e = CHR ''t'' then Some (CHR 0x09)
      else if e = CHR ''n'' then Some (CHR 0x0A)
      else if e = CHR ''f'' then Some (CHR 0x0C)
      else if e = CHR ''r'' then Some (CHR 0x0D)
      else if e = dquote then Some dquote
      else if e = backslash then Some backslash
      else None)"

text \<open>
  \<^verbatim>\<open>\uXXXX\<close> and \<^verbatim>\<open>\UXXXXXXXX\<close> name a code point by its hexadecimal digits. The model
  decodes the code points below 256, the alphabet of \<^typ>\<open>string\<close>.
\<close>

definition hex_digit :: "char \<Rightarrow> nat option" where
  "hex_digit c = map_of (zip ''0123456789abcdef'' [0 ..< 16] @ zip ''ABCDEF'' [10 ..< 16]) c"

fun hex_value :: "nat \<Rightarrow> string \<Rightarrow> nat option" where
  "hex_value acc [] = Some acc"
| "hex_value acc (c # cs) =
     (case hex_digit c of None \<Rightarrow> None | Some d \<Rightarrow> hex_value (16 * acc + d) cs)"

definition toml_unicode :: "nat \<Rightarrow> string \<Rightarrow> char option" where
  "toml_unicode n cs =
     (if length cs < n then None
      else case hex_value 0 (take n cs) of
             None \<Rightarrow> None
           | Some v \<Rightarrow> if v < 256 then Some (char_of v) else None)"

fun toml_basic_body :: "string \<Rightarrow> (string \<times> string) option" where
  "toml_basic_body [] = None"
| "toml_basic_body (c # cs) =
     (if c = dquote then Some ([], cs)
      else if c = backslash then
        (case cs of
           [] \<Rightarrow> None
         | e # cs' \<Rightarrow>
             (if e = CHR ''u'' \<or> e = CHR ''U'' then
                (let n = (if e = CHR ''u'' then 4 else 8) in
                 case toml_unicode n cs' of
                   None \<Rightarrow> None
                 | Some d \<Rightarrow>
                     (case toml_basic_body (drop n cs') of
                        None \<Rightarrow> None
                      | Some (s, rest) \<Rightarrow> Some (d # s, rest)))
              else
                (case toml_escape_char e of
                   None \<Rightarrow> None
                 | Some d \<Rightarrow>
                     (case toml_basic_body cs' of
                        None \<Rightarrow> None
                      | Some (s, rest) \<Rightarrow> Some (d # s, rest)))))
      else if toml_illegal c then None
      else (case toml_basic_body cs of
              None \<Rightarrow> None
            | Some (s, rest) \<Rightarrow> Some (c # s, rest)))"

definition toml_basic_string :: "string \<Rightarrow> (string \<times> string) option" where
  "toml_basic_string s =
     (case s of [] \<Rightarrow> None | q # cs \<Rightarrow> if q = dquote then toml_basic_body cs else None)"

section \<open>The file system under the working directory\<close>

text \<open>
  Every path that \<^verbatim>\<open>generate_project\<close> touches is \<^verbatim>\<open>Path.cwd()\<close> or lies below it, so the
  file system of the model is the tree of the working directory, and a path is the list
  of components from there (\<open>[]\<close> is \<^verbatim>\<open>Path.cwd()\<close> itself). A directory lists its entries
  by name. The name of the project is one component of a path, which holds of every name
  that passed validation. An operation of the model fails for the reasons that lie in the
  tree (a regular file where a directory is needed, a directory where a file is written,
  a missing parent); it writes a file whole or not at all. Failures of the device or of
  permissions are outside the model.
\<close>

type_synonym path = "string list"

datatype node = File string | Dir "(string \<times> node) list"

datatype reason = DirectoryAlreadyExists string | CurrentDirectoryNotEmpty | FileExists

text \<open>
  The exceptions of the generator: \<^verbatim>\<open>FileExistsError\<close> with the message of one of the two
  \<^verbatim>\<open>raise\<close> statements of \<^verbatim>\<open>generate_project\<close> (or from \<^verbatim>\<open>mkdir\<close>, for a path that is a
  regular file), the other \<^verbatim>\<open>OSError\<close>s of \<^verbatim>\<open>pathlib\<close>, and what Python raises on a \<^verbatim>\<open>None\<close>
  in the place of a string.
\<close>

datatype error =
    FileExistsError reason
  | NotADirectoryError
  | IsADirectoryError
  | FileNotFoundError
  | TypeError
  | AttributeError
  | ValueError

fun lookup :: "path \<Rightarrow> node \<Rightarrow> node option" where
  "lookup [] n = Some n"
| "lookup (k # ks) (File c) = None"
| "lookup (k # ks) (Dir es) = (case map_of es k of None \<Rightarrow> None | Some m \<Rightarrow> lookup ks m)"

text \<open>\<^verbatim>\<open>Path.exists()\<close>.\<close>

definition path_exists :: "path \<Rightarrow> node \<Rightarrow> bool" where
  "path_exists p t = (lookup p t \<noteq> None)"

text \<open>\<^verbatim>\<open>Path.iterdir()\<close>, as the names of the entries.\<close>

definition iterdir :: "path \<Rightarrow> node \<Rightarrow> error + string list" where
  "iterdir p t =
     (case lookup p t of
        None \<Rightarrow> Inl FileNotFoundError
      | Some (File c) \<Rightarrow> Inl NotADirectoryError
      | Some (Dir es) \<Rightarrow> Inr (map fst es))"

text \<open>
  \<^verbatim>\<open>Path.mkdir(parents=True, exist_ok=True)\<close>: every missing directory on the way is
  created; a directory that is there is kept; a regular file on the way, or at the path
  itself, is an error, and then nothing was created.
\<close>

fun mkdir_p :: "path \<Rightarrow> node \<Rightarrow> error + node" where
  "mkdir_p [] (Dir es) = Inr (Dir es)"
| "mkdir_p [] (File c) = Inl (FileExistsError FileExists)"
| "mkdir_p (k # ks) (File c) = Inl NotADirectoryError"
| "mkdir_p (k # ks) (Dir es) =
     (case mkdir_p ks (case map_of es k of None \<Rightarrow> Dir [] | Some m \<Rightarrow> m) of
        Inl e \<Rightarrow> Inl e
      | Inr m' \<Rightarrow> Inr (Dir (AList.update k m' es)))"

text \<open>
  \<^verbatim>\<open>Path.write_text(content)\<close>: the parent must be a directory, the path itself must not
  be one; the file is created, or its content replaced.
\<close>

fun write_text :: "path \<Rightarrow> string \<Rightarrow> node \<Rightarrow> error + node" where
  "write_text [] content n = Inl IsADirectoryError"
| "write_text (k # ks) content (File c) = Inl NotADirectoryError"
| "write_text [k] content (Dir es) =
     (case map_of es k of
        Some (Dir es') \<Rightarrow> Inl IsADirectoryError
      | _ \<Rightarrow> Inr (Dir (AList.update k (File content) es)))"
| "write_text (k # k' # ks) content (Dir es) =
     (case map_of es k of
        None \<Rightarrow> Inl FileNotFoundError
      | Some m \<Rightarrow>
          (case write_text (k' # ks) content m of
             Inl e \<Rightarrow> Inl e
           | Inr m' \<Rightarrow> Inr (Dir (AList.update k m' es))))"

text \<open>\<^verbatim>\<open>path.relative_to(root)\<close>: \<^verbatim>\<open>ValueError\<close> unless the path is \<open>root\<close> or below it.\<close>

definition relative_to :: "path \<Rightarrow> path \<Rightarrow> error + path" where
  "relative_to p root = (if prefix root p then Inr (drop (length root) p) else Inl ValueError)"

section \<open>The generator\<close>

text \<open>
  The state of a run: the tree of the working directory and the list \<^verbatim>\<open>created\<close>. A run
  ends in \<open>Inr\<close> of its last state, or in \<open>Inl\<close> of the exception with the state in which
  it was raised.
\<close>

record gen_state =
  tree :: node
  created :: "path list"

type_synonym outcome = "(error \<times> gen_state) + gen_state"

definition and_then :: "outcome \<Rightarrow> (gen_state \<Rightarrow> outcome) \<Rightarrow> outcome" where
  "and_then r f = (case r of Inl x \<Rightarrow> Inl x | Inr st \<Rightarrow> f st)"

text \<open>\<^verbatim>\<open>_write_file\<close>: the parent directories, then the content, then the entry.\<close>

definition write_file :: "path \<Rightarrow> string \<Rightarrow> path \<Rightarrow> gen_state \<Rightarrow> outcome" where
  "write_file p content root st =
     (case mkdir_p (butlast p) (tree st) of
        Inl e \<Rightarrow> Inl (e, st)
      | Inr t1 \<Rightarrow>
          (case write_text p content t1 of
             Inl e \<Rightarrow> Inl (e, st\<lparr>tree := t1\<rparr>)
           | Inr t2 \<Rightarrow>
               (case relative_to p root of
                  Inl e \<Rightarrow> Inl (e, st\<lparr>tree := t2\<rparr>)
                | Inr rel \<Rightarrow> Inr (st\<lparr>tree := t2, created := created st @ [rel]\<rparr>))))"

text \<open>\<^verbatim>\<open>_write_init\<close>.\<close>

definition write_init :: "path \<Rightarrow> path \<Rightarrow> gen_state \<Rightarrow> outcome" where
  "write_init p root st = write_file (p @ [''__init__.py'']) [] root st"

text \<open>
  The template context of a run. The templates themselves are data of the package, so
  \<^verbatim>\<open>_render\<close> is a parameter \<open>render\<close> of the model: the text of a template for a context.
\<close>

record template_context =
  ctx_project_name :: string
  ctx_description :: string
  ctx_author :: string
  ctx_python_version :: "string option"
  ctx_ci :: "bool option"
  ctx_devcontainer :: "bool option"
  ctx_precommit :: "bool option"
  ctx_docker :: "bool option"
  ctx_diagrams :: "bool option"
  ctx_continue :: "bool option"

type_synonym renderer = "string \<Rightarrow> template_context \<Rightarrow> string"

definition generate_source_tree ::
  "renderer \<Rightarrow> path \<Rightarrow> template_context \<Rightarrow> path \<Rightarrow> gen_state \<Rightarrow> outcome" where
  "generate_source_tree render src context root st =
     and_then (write_file (src @ [''__init__.py'']) (render ''base/init.py.j2'' context) root st)
     (\<lambda>st. and_then
        (write_file (src @ [''__main__.py'']) (render ''base/__main__.py.j2'' context) root st)
     (\<lambda>st. write_file (src @ [''main.py'']) (render ''base/main.py.j2'' context) root st))"

definition generate_tests ::
  "renderer \<Rightarrow> path \<Rightarrow> template_context \<Rightarrow> gen_state \<Rightarrow> outcome" where
  "generate_tests render root context st =
     (let tests = root @ [''tests''] in
      and_then (write_init tests root st)
      (\<lambda>st. and_then
         (write_file (tests @ [''conftest.py'']) (render ''base/conftest.py.j2'' context) root st)
      (\<lambda>st. write_file (tests @ [''test_main.py'']) (render ''base/test_main.py.j2'' context)
              root st)))"

definition generate_root_files ::
  "renderer \<Rightarrow> path \<Rightarrow> template_context \<Rightarrow> gen_state \<Rightarrow> outcome" where
  "generate_root_files render root context st =
     and_then
       (write_file (root @ [''pyproject.toml'']) (render ''base/pyproject.toml.j2'' context)
          root st)
     (\<lambda>st. and_then
        (write_file (root @ [''README.md'']) (render ''base/README.md.j2'' context) root st)
     (\<lambda>st. and_then
        (write_file (root @ [''.gitignore'']) (render ''base/gitignore.j2'' context) root st)
     (\<lambda>st. and_then
        (write_file (root @ [''Makefile'']) (render ''base/Makefile.j2'' context) root st)
     (\<lambda>st. write_file (root @ [''.env'']) (render ''base/env.j2'' context) root st))))"

definition generate_vscode ::
  "renderer \<Rightarrow> path \<Rightarrow> template_context \<Rightarrow> gen_state \<Rightarrow> outcome" where
  "generate_vscode render root context st =
     (let vscode = root @ [''.vscode''] in
      and_then
        (write_file (vscode @ [''launch.json'']) (render ''base/vscode_launch.json.j2'' context)
           root st)
      (\<lambda>st. write_file (vscode @ [''settings.json''])
              (render ''base/vscode_settings.json.j2'' context) root st))"

definition generate_continue ::
  "renderer \<Rightarrow> path \<Rightarrow> template_context \<Rightarrow> gen_state \<Rightarrow> outcome" where
  "generate_continue render root context st =
     write_file (root @ [''.continue'', ''config.yaml''])
       (render ''base/continue_config.yaml.j2'' context) root st"

definition generate_docker ::
  "renderer \<Rightarrow> path \<Rightarrow> template_context \<Rightarrow> gen_state \<Rightarrow> outcome" where
  "generate_docker render root context st =
     (let docker_dir = root @ [''docker''] in
      and_then
        (write_file (docker_dir @ [''Dockerfile'']) (render ''docker/Dockerfile.j2'' context)
           root st)
      (\<lambda>st. and_then
         (write_file (docker_dir @ [''docker-compose.yml''])
            (render ''docker/docker-compose.yml.j2'' context) root st)
      (\<lambda>st. write_file (root @ [''.dockerignore'']) (render ''docker/dockerignore.j2'' context)
              root st)))"

definition generate_ci ::
  "renderer \<Rightarrow> path \<Rightarrow> template_context \<Rightarrow> gen_state \<Rightarrow> outcome" where
  "generate_ci render root context st =
     (let ci_dir = root @ [''.github'', ''workflows''] in
      write_file (ci_dir @ [''ci.yml'']) (render ''ci/ci.yml.j2'' context) root st)"

definition generate_devcontainer ::
  "renderer \<Rightarrow> path \<Rightarrow> template_context \<Rightarrow> gen_state \<Rightarrow> outcome" where
  "generate_devcontainer render root context st =
     (let devcontainer_dir = root @ [''.devcontainer''] in
      write_file (devcontainer_dir @ [''devcontainer.json''])
        (render ''devcontainer/devcontainer.json.j2'' context) root st)"

definition generate_precommit ::
  "renderer \<Rightarrow> path \<Rightarrow> template_context \<Rightarrow> gen_state \<Rightarrow> outcome" where
  "generate_precommit render root context st =
     write_file (root @ [''.pre-commit-config.yaml''])
       (render ''precommit/pre-commit-config.yaml.j2'' context) root st"

definition generate_diagrams ::
  "renderer \<Rightarrow> path \<Rightarrow> template_context \<Rightarrow> gen_state \<Rightarrow> outcome" where
  "generate_diagrams render root context st =
     (let diagrams_dir = root @ [''docs'', ''diagrams''] in
      write_file (diagrams_dir @ [''class_diagram.puml''])
        (render ''diagrams/class_diagram.puml.j2'' context) root st)"

text \<open>
  Lines 57--70 of \<^verbatim>\<open>generate_project\<close>: the root of the project and the check of the
  destination. \<^verbatim>\<open>Path.cwd() / name\<close> raises \<^verbatim>\<open>TypeError\<close> for a name that is \<^verbatim>\<open>None\<close>.
\<close>

definition destination :: "config \<Rightarrow> node \<Rightarrow> error + path" where
  "destination config cwd =
     (if truthy (use_cwd config) then
        (case iterdir [] cwd of
           Inl e \<Rightarrow> Inl e
         | Inr names \<Rightarrow>
             if list_ex (\<lambda>n. n \<noteq> ''.git'') names
             then Inl (FileExistsError CurrentDirectoryNotEmpty)
             else Inr [])
      else
        (case name config of
           None \<Rightarrow> Inl TypeError
         | Some n \<Rightarrow>
             if path_exists [n] cwd then Inl (FileExistsError (DirectoryAlreadyExists n))
             else Inr [n]))"

text \<open>
  Lines 72--110 of \<^verbatim>\<open>generate_project\<close>: the context, then the groups of files in their
  order. \<^verbatim>\<open>root / "src" / name\<close> raises \<^verbatim>\<open>TypeError\<close> and \<^verbatim>\<open>_escape_toml_string\<close> raises
  \<^verbatim>\<open>AttributeError\<close> on \<^verbatim>\<open>None\<close>.
\<close>

definition generate_files :: "renderer \<Rightarrow> config \<Rightarrow> path \<Rightarrow> gen_state \<Rightarrow> outcome" where
  "generate_files render config root st =
     (case name config of
        None \<Rightarrow> Inl (TypeError, st)
      | Some n \<Rightarrow>
     (case description config of
        None \<Rightarrow> Inl (AttributeError, st)
      | Some d \<Rightarrow>
     (case author config of
        None \<Rightarrow> Inl (AttributeError, st)
      | Some a \<Rightarrow>
     (let src = root @ [''src'', n];
          context = \<lparr>ctx_project_name = n,
                     ctx_description = escape_toml_string d,
                     ctx_author = escape_toml_string a,
                     ctx_python_version = python config,
                     ctx_ci = ci config,
                     ctx_devcontainer = devcontainer config,
                     ctx_precommit = precommit config,
                     ctx_docker = docker config,
                     ctx_diagrams = diagrams config,
                     ctx_continue = continue config\<rparr>
      in
      and_then (generate_source_tree render src context root st)
      (\<lambda>st. and_then (generate_tests render root context st)
      (\<lambda>st. and_then (generate_root_files render root context st)
      (\<lambda>st. and_then (generate_vscode render root context st)
      (\<lambda>st. and_then (if truthy (continue config)
                       then generate_continue render root context st else Inr st)
      (\<lambda>st. and_then (if truthy (docker config)
                       then generate_docker render root context st else Inr st)
      (\<lambda>st. and_then (if truthy (ci config)
                       then generate_ci render root context st else Inr st)
      (\<lambda>st. and_then (if truthy (devcontainer config)
                       then generate_devcontainer render root context st else Inr st)
      (\<lambda>st. and_then (if truthy (precommit config)
                       then generate_precommit render root context st else Inr st)
      (\<lambda>st. if truthy (diagrams config)
             then generate_diagrams render root context st else Inr st)))))))))))))"

text \<open>
  \<^verbatim>\<open>generate_project\<close>. The value it returns is the \<open>created\<close> of the final state; the
  \<open>tree\<close> of that state is the working directory it leaves behind.
\<close>

definition generate_project :: "renderer \<Rightarrow> config \<Rightarrow> node \<Rightarrow> outcome" where
  "generate_project render config cwd =
     (let st0 = \<lparr>tree = cwd, created = []\<rparr> in
      case destination config cwd of
        Inl e \<Rightarrow> Inl (e, st0)
      | Inr root \<Rightarrow> generate_files render config root st0)"

section \<open>Reading the tree\<close>

text \<open>\<^verbatim>\<open>Path.is_file()\<close>, \<^verbatim>\<open>Path.is_dir()\<close> and the content that \<^verbatim>\<open>Path.read_text()\<close> returns.\<close>

definition is_file :: "path \<Rightarrow> node \<Rightarrow> bool" where
  "is_file p t = (case lookup p t of Some (File c) \<Rightarrow> True | _ \<Rightarrow> False)"

definition is_dir :: "path \<Rightarrow> node \<Rightarrow> bool" where
  "is_dir p t = (case lookup p t of Some (Dir es) \<Rightarrow> True | _ \<Rightarrow> False)"

definition read_text :: "path \<Rightarrow> node \<Rightarrow> string option" where
  "read_text p t = (case lookup p t of Some (File c) \<Rightarrow> Some c | _ \<Rightarrow> None)"

section \<open>The files of a run as a table\<close>

text \<open>
  The groups of files as lists of a relative path and the identifier of its template
  (\<open>None\<close> for the empty \<^verbatim>\<open>tests/__init__.py\<close>), one list per function of the generator,
  read off their bodies. The proofs below compare the generator with the writes of this
  table, one after the other.
\<close>

definition source_tree_group :: "string \<Rightarrow> (path \<times> string option) list" where
  "source_tree_group n =
     [([''src'', n, ''__init__.py''], Some ''base/init.py.j2''),
      ([''src'', n, ''__main__.py''], Some ''base/__main__.py.j2''),
      ([''src'', n, ''main.py''], Some ''base/main.py.j2'')]"

definition tests_group :: "(path \<times> string option) list" where
  "tests_group =
     [([''tests'', ''__init__.py''], None),
      ([''tests'', ''conftest.py''], Some ''base/conftest.py.j2''),
      ([''tests'', ''test_main.py''], Some ''base/test_main.py.j2'')]"

definition root_files_group :: "(path \<times> string option) list" where
  "root_files_group =
     [([''pyproject.toml''], Some ''base/pyproject.toml.j2''),
      ([''README.md''], Some ''base/README.md.j2''),
      ([''.gitignore''], Some ''base/gitignore.j2''),
      ([''Makefile''], Some ''base/Makefile.j2''),
      ([''.env''], Some ''base/env.j2'')]"

definition vscode_group :: "(path \<times> string option) list" where
  "vscode_group =
     [([''.vscode'', ''launch.json''], Some ''base/vscode_launch.json.j2''),
      ([''.vscode'', ''settings.json''], Some ''base/vscode_settings.json.j2'')]"

definition continue_group :: "(path \<times> string option) list" where
  "continue_group = [([''.continue'', ''config.yaml''], Some ''base/continue_config.yaml.j2'')]"

definition docker_group :: "(path \<times> string option) list" where
  "docker_group =
     [([''docker'', ''Dockerfile''], Some ''docker/Dockerfile.j2''),
      ([''docker'', ''docker-compose.yml''], Some ''docker/docker-compose.yml.j2''),
      ([''.dockerignore''], Some ''docker/dockerignore.j2'')]"

definition ci_group :: "(path \<times> string option) list" where
  "ci_group = [([''.github'', ''workflows'', ''ci.yml''], Some ''ci/ci.yml.j2'')]"

definition devcontainer_group :: "(path \<times> string option) list" where
  "devcontainer_group =
     [([''.devcontainer'', ''devcontainer.json''], Some ''devcontainer/devcontainer.json.j2'')]"

definition precommit_group :: "(path \<times> string option) list" where
  "precommit_group =
     [([''.pre-commit-config.yaml''], Some ''precommit/pre-commit-config.yaml.j2'')]"

definition diagrams_group :: "(path \<times> string option) list" where
  "diagrams_group =
     [([''docs'', ''diagrams'', ''class_diagram.puml''], Some ''diagrams/class_diagram.puml.j2'')]"

text \<open>A group behind a flag: there when the flag is true.\<close>

definition gated :: "bool option \<Rightarrow> 'a list \<Rightarrow> 'a list" where
  "gated flag xs = (if truthy flag then xs else [])"

text \<open>The table of a run for a project name and a configuration, in the order of emission.\<close>

definition planned :: "string \<Rightarrow> config \<Rightarrow> (path \<times> string option) list" where
  "planned n config =
     source_tree_group n @ tests_group @ root_files_group @ vscode_group @
     gated (continue config) continue_group @ gated (docker config) docker_group @
     gated (ci config) ci_group @ gated (devcontainer config) devcontainer_group @
     gated (precommit config) precommit_group @ gated (diagrams config) diagrams_group"

text \<open>The context that \<^verbatim>\<open>generate_project\<close> builds, and the content of a file of the table.\<close>

definition context_of :: "config \<Rightarrow> string \<Rightarrow> string \<Rightarrow> string \<Rightarrow> template_context" where
  "context_of config n d a =
     \<lparr>ctx_project_name = n,
      ctx_description = escape_toml_string d,
      ctx_author = escape_toml_string a,
      ctx_python_version = python config,
      ctx_ci = ci config,
      ctx_devcontainer = devcontainer config,
      ctx_precommit = precommit config,
      ctx_docker = docker config,
      ctx_diagrams = diagrams config,
      ctx_continue = continue config\<rparr>"

definition content_of :: "renderer \<Rightarrow> template_context \<Rightarrow> string option \<Rightarrow> string" where
  "content_of render context template =
     (case template of None \<Rightarrow> [] | Some t \<Rightarrow> render t context)"

definition planned_files ::
  "renderer \<Rightarrow> template_context \<Rightarrow> (path \<times> string option) list \<Rightarrow> (path \<times> string) list" where
  "planned_files render context plan = map (\<lambda>(p, t). (p, content_of render context t)) plan"

text \<open>\<^verbatim>\<open>_write_file\<close> for each file of a list in turn, stopping at the first exception.\<close>

fun write_files :: "path \<Rightarrow> (path \<times> string) list \<Rightarrow> gen_state \<Rightarrow> outcome" where
  "write_files root [] st = Inr st"
| "write_files root ((rel, content) # rest) st =
     and_then (write_file (root @ rel) content root st) (write_files root rest)"

text \<open>The state in which a run ended, by a \<^verbatim>\<open>return\<close> or by an exception.\<close>

definition final_state :: "outcome \<Rightarrow> gen_state" where
  "final_state r = (case r of Inl (e, st) \<Rightarrow> st | Inr st \<Rightarrow> st)"

text \<open>
  The files a list of writes leaves behind, latest first: as an association list from
  the path below the working directory to the content, the latest write of a path wins.
\<close>

definition written :: "path \<Rightarrow> (path \<times> string) list \<Rightarrow> (path \<times> string) list" where
  "written root plan = rev (map (\<lambda>(rel, content). (root @ rel, content)) plan)"

text \<open>
  The result that the specification states for a run: thirteen paths that are always
  there (three of the source package, three of the tests, five at the root, two for the
  editor), then the group of every flag that is true, in the order AI assistant,
  containers, CI, devcontainer, pre-commit, diagrams.
\<close>

definition expected_paths :: "string \<Rightarrow> config \<Rightarrow> path list" where
  "expected_paths n config =
     [[''src'', n, ''__init__.py''], [''src'', n, ''__main__.py''], [''src'', n, ''main.py''],
      [''tests'', ''__init__.py''], [''tests'', ''conftest.py''], [''tests'', ''test_main.py''],
      [''pyproject.toml''], [''README.md''], [''.gitignore''], [''Makefile''], [''.env''],
      [''.vscode'', ''launch.json''], [''.vscode'', ''settings.json'']] @
     (if continue config = Some True then [[''.continue'', ''config.yaml'']] else []) @
     (if docker config = Some True
      then [[''docker'', ''Dockerfile''], [''docker'', ''docker-compose.yml''], [''.dockerignore'']]
      else []) @
     (if ci config = Some True then [[''.github'', ''workflows'', ''ci.yml'']] else []) @
     (if devcontainer config = Some True then [[''.devcontainer'', ''devcontainer.json'']]
      else []) @
     (if precommit config = Some True then [[''.pre-commit-config.yaml'']] else []) @
     (if diagrams config = Some True then [[''docs'', ''diagrams'', ''class_diagram.puml'']]
      else [])"

text \<open>Every path of every group.\<close>

definition all_paths :: "string \<Rightarrow> path list" where
  "all_paths n = map fst (source_tree_group n @ tests_group @ root_files_group @ vscode_group @
     continue_group @ docker_group @ ci_group @ devcontainer_group @ precommit_group @
     diagrams_group)"

text \<open>
  A root that passed the check of the destination, for a working directory with the
  entries \<open>es\<close>: the working directory itself with no entry but \<^verbatim>\<open>.git\<close>, or a name that
  is not among the entries.
\<close>

definition usable :: "path \<Rightarrow> (string \<times> node) list \<Rightarrow> bool" where
  "usable root es =
     (root = [] \<and> \<not> list_ex (\<lambda>k. k \<noteq> ''.git'') (map fst es) \<or>
      (\<exists>k. root = [k] \<and> map_of es k = None))"

text \<open>What escaping does to one character.\<close>

definition esc :: "char \<Rightarrow> string" where
  "esc c = (if c = backslash then [backslash, backslash]
            else if c = dquote then [backslash, dquote] else [c])"

section \<open>Sample inputs\<close>

text \<open>
  Concrete inputs for the examples below. Of the four defaults the tests of the CLI show
  the project name \<^verbatim>\<open>myproject\<close>; the other three values stand for those of the package.
  \<open>stdlib_sample\<close> is a small table in the place of \<^verbatim>\<open>sys.stdlib_module_names\<close>.
\<close>

definition sample_defaults :: defaults where
  "sample_defaults = \<lparr>DEFAULT_AUTHOR = ''Your Name'', DEFAULT_DESCRIPTION = ''A Python project'',
     DEFAULT_PROJECT_NAME = ''myproject'', DEFAULT_PYTHON_VERSION = ''3.14''\<rparr>"

definition stdlib_sample :: "string set" where
  "stdlib_sample = {''json'', ''os'', ''site'', ''sys''}"

text \<open>The configuration that \<^verbatim>\<open>new\<close> builds from a command line that gives only the name.\<close>

definition cli_args :: "string option \<Rightarrow> config" where
  "cli_args n = \<lparr>name = n, description = None, author = None, python = Some ''3.14'',
     ci = None, devcontainer = None, precommit = None, docker = None, diagrams = None,
     continue = None, use_cwd = None\<rparr>"

definition complete_config :: config where
  "complete_config = \<lparr>name = Some ''demo'', description = Some ''A demo'', author = Some ''Ada'',
     python = Some ''3.14'', ci = Some True, devcontainer = Some False, precommit = Some True,
     docker = Some False, diagrams = Some True, continue = Some False, use_cwd = Some False\<rparr>"

text \<open>
  A renderer, four working directories and the replies of a user who presses the return
  key at every prompt but one.
\<close>

definition sample_render :: renderer where
  "sample_render t c = t @ '' for '' @ ctx_project_name c"

definition sample_cwd :: node where
  "sample_cwd = Dir [(''.git'', Dir [(''HEAD'', File ''ref'')]), (''notes.txt'', File ''hello'')]"

definition blocked_cwd :: node where
  "blocked_cwd = Dir [(''.git'', Dir []), (''README.md'', Dir [])]"

definition git_only_cwd :: node where
  "git_only_cwd = Dir [(''.git'', Dir [(''HEAD'', File ''ref'')])]"

definition taken_cwd :: node where
  "taken_cwd = Dir [(''demo'', Dir [])]"

definition sample_replies :: replies where
  "sample_replies = \<lparr>reply_name = None, reply_description = None, reply_author = None,
     reply_python = None, reply_ci = None, reply_devcontainer = Some False,
     reply_precommit = None, reply_docker = None, reply_diagrams = None\<rparr>"

section \<open>What the two regular expressions accept\<close>

lemmas char_defs = newline_def backslash_def dquote_def ascii_lowercase_def ascii_uppercase_def
  ascii_digits_def is_digit_def is_ident_start_def is_ident_char_def isdigit_def

lemmas re_defs = re_char_def re_plus_def re_dollar_def match_project_name_def
  match_python_version_def sub_non_ident_def startswith_def endswith_def

lemmas validate_defs = validate_project_name_def validate_python_version_def iskeyword_def
  kwlist_def RESERVED_NAMES_def validate_def str_of_def

text \<open>\<open>re_star P k\<close> accepts a string exactly when some number of leading characters of the
  class \<open>P\<close> can be split off so that \<open>k\<close> accepts the rest.\<close>

lemma re_star_iff:
  "re_star P k s \<longleftrightarrow> (\<exists>a r. s = a @ r \<and> (\<forall>c\<in>set a. P c) \<and> k r)"
proof (induction s)
  case Nil
  then show ?case by simp
next
  case (Cons c cs)
  show ?case
  proof
    assume "re_star P k (c # cs)"
    then consider "P c" "re_star P k cs" | "k (c # cs)" by auto
    then show "\<exists>a r. c # cs = a @ r \<and> (\<forall>c\<in>set a. P c) \<and> k r"
    proof cases
      case 1
      with Cons obtain a r where "cs = a @ r" "\<forall>c\<in>set a. P c" "k r" by blast
      with 1 have "c # cs = (c # a) @ r \<and> (\<forall>x\<in>set (c # a). P x) \<and> k r" by simp
      then show ?thesis by blast
    next
      case 2
      then have "c # cs = [] @ (c # cs) \<and> (\<forall>x\<in>set []. P x) \<and> k (c # cs)" by simp
      then show ?thesis by blast
    qed
  next
    assume "\<exists>a r. c # cs = a @ r \<and> (\<forall>c\<in>set a. P c) \<and> k r"
    then obtain a r where ar: "c # cs = a @ r" "\<forall>c\<in>set a. P c" "k r" by blast
    show "re_star P k (c # cs)"
    proof (cases a)
      case Nil
      with ar have "k (c # cs)" by simp
      then show ?thesis by simp
    next
      case (Cons x a')
      with ar have "x = c" "cs = a' @ r" "P c" "\<forall>c\<in>set a'. P c" by auto
      with ar(3) Cons.IH show ?thesis by auto
    qed
  qed
qed

text \<open>The version pattern accepts digits, a dot and digits, and the same followed by one
  line feed.\<close>

lemma match_python_version_iff:
  "match_python_version s \<longleftrightarrow>
     (\<exists>a b. a \<noteq> [] \<and> b \<noteq> [] \<and> (\<forall>c\<in>set a. is_digit c) \<and> (\<forall>c\<in>set b. is_digit c) \<and>
            (s = a @ ''.'' @ b \<or> s = a @ ''.'' @ b @ [newline]))"
  (is "?L \<longleftrightarrow> ?R")
proof
  assume ?L
  then obtain c cs where s: "s = c # cs" "is_digit c"
    and st: "re_star is_digit (re_char (\<lambda>c. c = CHR ''.'') (re_plus is_digit re_dollar)) cs"
    by (auto simp: match_python_version_def re_plus_def re_char_def split: list.splits)
  from st obtain a r where a: "cs = a @ r" "\<forall>c\<in>set a. is_digit c"
    and r: "re_char (\<lambda>c. c = CHR ''.'') (re_plus is_digit re_dollar) r"
    unfolding re_star_iff by blast
  from r obtain r' where r': "r = CHR ''.'' # r'" "re_plus is_digit re_dollar r'"
    by (auto simp: re_char_def split: list.splits)
  from r'(2) obtain d ds where d: "r' = d # ds" "is_digit d" "re_star is_digit re_dollar ds"
    by (auto simp: re_plus_def re_char_def split: list.splits)
  from d(3) obtain b e where b: "ds = b @ e" "\<forall>c\<in>set b. is_digit c" "re_dollar e"
    unfolding re_star_iff by blast
  let ?a = "c # a" and ?b = "d # b"
  have "?a \<noteq> [] \<and> ?b \<noteq> [] \<and> (\<forall>c\<in>set ?a. is_digit c) \<and> (\<forall>c\<in>set ?b. is_digit c) \<and>
        (s = ?a @ ''.'' @ ?b \<or> s = ?a @ ''.'' @ ?b @ [newline])"
    using s a r' d b by (auto simp: re_dollar_def)
  then show ?R by blast
next
  assume ?R
  then obtain a b where ab: "a \<noteq> []" "b \<noteq> []" "\<forall>c\<in>set a. is_digit c" "\<forall>c\<in>set b. is_digit c"
    and s: "s = a @ ''.'' @ b \<or> s = a @ ''.'' @ b @ [newline]" by blast
  from ab obtain c a' d b' where cd: "a = c # a'" "b = d # b'" by (cases a; cases b) auto
  define e where "e = (if s = a @ ''.'' @ b then [] else [newline])"
  have se: "s = c # (a' @ (CHR ''.'' # d # (b' @ e)))" and e: "re_dollar e"
    using s cd by (auto simp: e_def re_dollar_def)
  have 1: "re_star is_digit re_dollar (b' @ e)"
    unfolding re_star_iff using ab cd e by auto
  have 2: "re_char (\<lambda>c. c = CHR ''.'') (re_plus is_digit re_dollar) (CHR ''.'' # d # (b' @ e))"
    using 1 ab cd by (simp add: re_char_def re_plus_def)
  have 3: "re_star is_digit (re_char (\<lambda>c. c = CHR ''.'') (re_plus is_digit re_dollar))
             (a' @ (CHR ''.'' # d # (b' @ e)))"
    unfolding re_star_iff[of is_digit "re_char (\<lambda>c. c = CHR ''.'') (re_plus is_digit re_dollar)"]
    using 2 ab cd by auto
  have "re_plus is_digit (re_char (\<lambda>c. c = CHR ''.'') (re_plus is_digit re_dollar))
          (c # (a' @ (CHR ''.'' # d # (b' @ e))))"
    unfolding re_plus_def[of is_digit "re_char (\<lambda>c. c = CHR ''.'') (re_plus is_digit re_dollar)"]
    using 3 ab cd by (simp add: re_char_def)
  then show ?L
    unfolding match_python_version_def se .
qed

lemma ident_start_iff: "is_ident_start c \<longleftrightarrow> is_ident_char c \<and> \<not> is_digit c"
  by (auto simp: char_defs)

text \<open>The name pattern accepts an identifier, and an identifier followed by one line feed.\<close>

lemma match_project_name_iff:
  "match_project_name nm \<longleftrightarrow>
     (\<exists>b. b \<noteq> [] \<and> (\<forall>c\<in>set b. is_ident_char c) \<and> \<not> is_digit (hd b) \<and>
          (nm = b \<or> nm = b @ [newline]))"
  (is "?L \<longleftrightarrow> ?R")
proof
  assume ?L
  then obtain c cs where s: "nm = c # cs" "is_ident_start c" "re_star is_ident_char re_dollar cs"
    by (auto simp: match_project_name_def re_char_def split: list.splits)
  from s(3) obtain a e where a: "cs = a @ e" "\<forall>c\<in>set a. is_ident_char c" "re_dollar e"
    unfolding re_star_iff by blast
  have "c # a \<noteq> [] \<and> (\<forall>x\<in>set (c # a). is_ident_char x) \<and> \<not> is_digit (hd (c # a)) \<and>
        (nm = c # a \<or> nm = (c # a) @ [newline])"
    using s a by (auto simp: re_dollar_def ident_start_iff)
  then show ?R by blast
next
  assume ?R
  then obtain b where b: "b \<noteq> []" "\<forall>c\<in>set b. is_ident_char c" "\<not> is_digit (hd b)"
    "nm = b \<or> nm = b @ [newline]" by blast
  then obtain c b' where cb: "b = c # b'" by (cases b) auto
  define e where "e = (if nm = b then [] else [newline])"
  have nm: "nm = c # (b' @ e)" and e: "re_dollar e" using b cb by (auto simp: e_def re_dollar_def)
  have "re_star is_ident_char re_dollar (b' @ e)"
    unfolding re_star_iff using b cb e by auto
  then show ?L unfolding match_project_name_def nm using b cb
    by (simp add: re_char_def ident_start_iff)
qed

lemma match_project_name_no_newline:
  assumes "nm = [] \<or> last nm \<noteq> newline"
  shows "match_project_name nm \<longleftrightarrow>
         nm \<noteq> [] \<and> (\<forall>c\<in>set nm. is_ident_char c) \<and> \<not> is_digit (hd nm)"
proof -
  have "\<not> (\<exists>b. b \<noteq> [] \<and> (\<forall>c\<in>set b. is_ident_char c) \<and> nm = b @ [newline])"
    using assms by auto
  then show ?thesis unfolding match_project_name_iff by auto
qed

section \<open>Validation\<close>

text \<open>
  C5, as the code has it. For a name that does not end in a line feed,
  \<^verbatim>\<open>_validate_project_name\<close> accepts exactly the non-empty names of letters, digits and
  underscores that do not start with a digit and are none of: a keyword, a name that
  starts and ends with two underscores, a name of \<^verbatim>\<open>_RESERVED_NAMES\<close>, a name of the
  standard library's table. So it rejects \<^verbatim>\<open>123bad\<close>, names with a space or a hyphen,
  \<^verbatim>\<open>class\<close>, \<^verbatim>\<open>__init__\<close>, the underscore-only name \<^verbatim>\<open>__\<close>, the reserved name \<^verbatim>\<open>tests\<close> and
  (where the table has it) \<^verbatim>\<open>json\<close>; it accepts \<^verbatim>\<open>_\<close> and \<^verbatim>\<open>_private\<close> where the table
  does not have them.
\<close>

theorem validate_project_name_accepts:
  assumes "nm = [] \<or> last nm \<noteq> newline"
  shows "(validate_project_name stdlib nm = Inr () \<longleftrightarrow>
            nm \<noteq> [] \<and> (\<forall>c\<in>set nm. is_ident_char c) \<and> \<not> is_digit (hd nm) \<and>
            \<not> iskeyword nm \<and> \<not> (startswith nm ''__'' \<and> endswith nm ''__'') \<and>
            nm \<notin> RESERVED_NAMES \<and> nm \<notin> stdlib) \<and>
         validate_project_name stdlib ''123bad'' = Inl (InvalidProjectName ''123bad'' ''123bad'') \<and>
         validate_project_name stdlib ''my project'' =
           Inl (InvalidProjectName ''my project'' ''my_project'') \<and>
         validate_project_name stdlib ''my-project'' =
           Inl (InvalidProjectName ''my-project'' ''my_project'') \<and>
         validate_project_name stdlib ''class'' = Inl (KeywordName ''class'') \<and>
         validate_project_name stdlib ''__init__'' = Inl (DunderName ''__init__'') \<and>
         validate_project_name stdlib ''__'' = Inl (DunderName ''__'') \<and>
         validate_project_name stdlib ''tests'' = Inl (ReservedName ''tests'') \<and>
         (''json'' \<in> stdlib \<longrightarrow>
            validate_project_name stdlib ''json'' = Inl (ReservedName ''json'')) \<and>
         (''_'' \<notin> stdlib \<longrightarrow> validate_project_name stdlib ''_'' = Inr ()) \<and>
         (''_private'' \<notin> stdlib \<longrightarrow> validate_project_name stdlib ''_private'' = Inr ())"
proof -
  have iff: "validate_project_name stdlib nm = Inr () \<longleftrightarrow>
            nm \<noteq> [] \<and> (\<forall>c\<in>set nm. is_ident_char c) \<and> \<not> is_digit (hd nm) \<and>
            \<not> iskeyword nm \<and> \<not> (startswith nm ''__'' \<and> endswith nm ''__'') \<and>
            nm \<notin> RESERVED_NAMES \<and> nm \<notin> stdlib"
    unfolding validate_project_name_def match_project_name_no_newline[OF assms] by auto
  have ex: "validate_project_name stdlib ''123bad'' = Inl (InvalidProjectName ''123bad'' ''123bad'')"
    "validate_project_name stdlib ''my project'' =
           Inl (InvalidProjectName ''my project'' ''my_project'')"
    "validate_project_name stdlib ''my-project'' =
           Inl (InvalidProjectName ''my-project'' ''my_project'')"
    "validate_project_name stdlib ''class'' = Inl (KeywordName ''class'')"
    "validate_project_name stdlib ''__init__'' = Inl (DunderName ''__init__'')"
    "validate_project_name stdlib ''__'' = Inl (DunderName ''__'')"
    "validate_project_name stdlib ''tests'' = Inl (ReservedName ''tests'')"
    by (simp_all add: validate_defs re_defs char_defs)
  have ex2: "''json'' \<in> stdlib \<longrightarrow>
      validate_project_name stdlib ''json'' = Inl (ReservedName ''json'')"
    "''_'' \<notin> stdlib \<longrightarrow> validate_project_name stdlib ''_'' = Inr ()"
    "''_private'' \<notin> stdlib \<longrightarrow> validate_project_name stdlib ''_private'' = Inr ()"
    by (simp_all add: validate_defs re_defs char_defs)
  from iff ex ex2 show ?thesis by blast
qed

text \<open>The theorem at the name \<^verbatim>\<open>my_project\<close> and the sample table.\<close>

theorem validate_project_name_accepts_witness:
  "last ''my_project'' \<noteq> newline \<and>
   validate_project_name stdlib_sample ''my_project'' = Inr () \<and>
   validate_project_name stdlib_sample ''json'' = Inl (ReservedName ''json'') \<and>
   validate_project_name stdlib_sample ''_'' = Inr () \<and>
   validate_project_name stdlib_sample ''_private'' = Inr ()"
  using validate_project_name_accepts[of "''my_project''" stdlib_sample]
  by (simp add: char_defs iskeyword_def kwlist_def startswith_def endswith_def RESERVED_NAMES_def
      stdlib_sample_def)

text \<open>
  The name \<^verbatim>\<open>tests\<close> is an identifier, no keyword, not of the form with two underscores at
  both ends and not in the table, and it is rejected: \<^verbatim>\<open>_RESERVED_NAMES\<close> holds it.
\<close>

theorem validate_project_name_denylist_counterexample:
  "validate_project_name stdlib_sample ''tests'' = Inl (ReservedName ''tests'') \<and>
   list_all is_ident_char ''tests'' \<and> \<not> is_digit (hd ''tests'') \<and> \<not> iskeyword ''tests'' \<and>
   \<not> (startswith ''tests'' ''__'' \<and> endswith ''tests'' ''__'') \<and>
   ''tests'' \<notin> stdlib_sample"
  by (simp add: validate_defs re_defs char_defs stdlib_sample_def)

text \<open>
  C6 at the input \<^verbatim>\<open>"3.14\n"\<close>: \<^verbatim>\<open>_validate_python_version\<close> accepts the version followed by
  a line feed, which is not of the form digits, dot, digits.
\<close>

theorem validate_python_version_trailing_newline:
  "validate_python_version ''3.14\<newline>'' = Inr ()"
  by (simp add: validate_defs re_defs char_defs)

text \<open>The examples of the version check: three rejected, two accepted.\<close>

lemma validate_python_version_examples:
  "validate_python_version ''banana'' = Inl (InvalidPythonVersion ''banana'')"
  "validate_python_version ''3'' = Inl (InvalidPythonVersion ''3'')"
  "validate_python_version ''3.14.1'' = Inl (InvalidPythonVersion ''3.14.1'')"
  "validate_python_version ''3.13'' = Inr ()"
  "validate_python_version ''3.14'' = Inr ()"
  by (simp_all add: validate_defs re_defs char_defs)

text \<open>
  C10. The validation of \<^verbatim>\<open>new\<close> ends in one error or in none. A missing name, and an
  error of the name check, is the error of the validation whatever the version is; the
  name check never gives the version error; and the version error is the result only when
  the name check passed and the version check gave it.
\<close>

theorem validate_name_before_version:
  "(name config = None \<longrightarrow> validate stdlib config = Inl ProjectNameRequired) \<and>
   (name config = Some nm \<and> validate_project_name stdlib nm = Inl e \<longrightarrow>
      validate stdlib config = Inl e) \<and>
   validate_project_name stdlib nm \<noteq> Inl (InvalidPythonVersion v) \<and>
   (validate stdlib config = Inl (InvalidPythonVersion v) \<longrightarrow>
      (\<exists>n. name config = Some n \<and> validate_project_name stdlib n = Inr ()) \<and>
      v = str_of (python config) \<and> validate_python_version v = Inl (InvalidPythonVersion v))"
proof -
  have 1: "validate_project_name stdlib n \<noteq> Inl (InvalidPythonVersion v)" for n
    by (simp add: validate_project_name_def)
  have 2: "validate stdlib config = Inl (InvalidPythonVersion v) \<longrightarrow>
      (\<exists>n. name config = Some n \<and> validate_project_name stdlib n = Inr ()) \<and>
      v = str_of (python config) \<and> validate_python_version v = Inl (InvalidPythonVersion v)"
    using 1 by (auto simp: validate_def validate_python_version_def
        split: option.splits sum.splits if_splits)
  show ?thesis using 1 2 by (auto simp: validate_def)
qed

text \<open>
  The theorem at a configuration whose name and version are both invalid, and at one with
  a valid name and the same version.
\<close>

theorem validate_name_before_version_witness:
  "validate stdlib_sample ((cli_args (Some ''123bad''))\<lparr>python := Some ''banana''\<rparr>) =
     Inl (InvalidProjectName ''123bad'' ''123bad'') \<and>
   validate_python_version ''banana'' = Inl (InvalidPythonVersion ''banana'') \<and>
   validate stdlib_sample ((cli_args (Some ''demo''))\<lparr>python := Some ''banana''\<rparr>) =
     Inl (InvalidPythonVersion ''banana'') \<and>
   validate_project_name stdlib_sample ''demo'' = Inr ()"
proof -
  have bad: "validate_project_name stdlib_sample ''123bad'' =
      Inl (InvalidProjectName ''123bad'' ''123bad'')"
    by (simp add: validate_defs re_defs char_defs)
  have good: "validate_project_name stdlib_sample ''demo'' = Inr ()"
    by (simp add: validate_defs re_defs char_defs stdlib_sample_def)
  have version: "validate_python_version ''banana'' = Inl (InvalidPythonVersion ''banana'')"
    by (simp add: validate_defs re_defs char_defs)
  have "validate stdlib_sample ((cli_args (Some ''123bad''))\<lparr>python := Some ''banana''\<rparr>) =
     Inl (InvalidProjectName ''123bad'' ''123bad'')"
    using validate_name_before_version[where
        config = "(cli_args (Some ''123bad''))\<lparr>python := Some ''banana''\<rparr>"
        and nm = "''123bad''" and stdlib = stdlib_sample
        and e = "InvalidProjectName ''123bad'' ''123bad''"] bad
    by (simp add: cli_args_def)
  moreover have "validate stdlib_sample ((cli_args (Some ''demo''))\<lparr>python := Some ''banana''\<rparr>) =
     Inl (InvalidPythonVersion ''banana'')"
    using good version by (simp add: validate_def cli_args_def str_of_def)
  ultimately show ?thesis using good version by simp
qed

section \<open>Resolution of the configuration\<close>

lemma sub_non_ident_map:
  "sub_non_ident s = map (\<lambda>c. if is_ident_char c then c else CHR ''_'') s"
  unfolding sub_non_ident_def by (induction s) auto

lemma sub_non_ident_chars: "c \<in> set (sub_non_ident s) \<Longrightarrow> is_ident_char c"
  unfolding sub_non_ident_map by (auto simp: char_defs)

lemma isdigit_ident: "is_ident_char c \<Longrightarrow> isdigit c = is_digit c"
  by (auto simp: char_defs)

text \<open>
  C7. For the name \<^verbatim>\<open>"."\<close> the project name is the base name of the working directory
  with every character outside \<^verbatim>\<open>[A-Za-z0-9_]\<close> replaced by an underscore; the default name
  if that is empty; with an underscore in front if it starts with a digit; and the
  current-directory flag is set. \<^verbatim>\<open>2cool\<close> gives \<^verbatim>\<open>_2cool\<close> and \<^verbatim>\<open>my-app!\<close> gives \<^verbatim>\<open>my_app_\<close>.
  Every other name, and no name, stays as it is and the flag is false.
\<close>

theorem resolve_name_sentinel:
  "(name config = Some ''.'' \<longrightarrow>
      (let s = map (\<lambda>c. if is_ident_char c then c else CHR ''_'') cwd_name in
       resolve_name D cwd_name config =
         config\<lparr>name := Some (if s = [] then DEFAULT_PROJECT_NAME D
                              else if is_digit (hd s) then CHR ''_'' # s else s),
                use_cwd := Some True\<rparr>)) \<and>
   (name config \<noteq> Some ''.'' \<longrightarrow>
      resolve_name D cwd_name config = config\<lparr>use_cwd := Some False\<rparr>) \<and>
   name (resolve_name D ''2cool'' (config\<lparr>name := Some ''.''\<rparr>)) = Some ''_2cool'' \<and>
   name (resolve_name D ''my-app!'' (config\<lparr>name := Some ''.''\<rparr>)) = Some ''my_app_'' \<and>
   name (resolve_name D [] (config\<lparr>name := Some ''.''\<rparr>)) = Some (DEFAULT_PROJECT_NAME D)"
proof -
  have "isdigit (hd (sub_non_ident cwd_name)) = is_digit (hd (sub_non_ident cwd_name))"
    if "sub_non_ident cwd_name \<noteq> []"
    using that sub_non_ident_chars[of "hd (sub_non_ident cwd_name)" cwd_name] isdigit_ident
    by auto
  then have 1: "name config = Some ''.'' \<longrightarrow>
      (let s = map (\<lambda>c. if is_ident_char c then c else CHR ''_'') cwd_name in
       resolve_name D cwd_name config =
         config\<lparr>name := Some (if s = [] then DEFAULT_PROJECT_NAME D
                              else if is_digit (hd s) then CHR ''_'' # s else s),
                use_cwd := Some True\<rparr>)"
    unfolding resolve_name_def sub_non_ident_map[symmetric] by (auto simp: Let_def)
  have 2: "name config \<noteq> Some ''.'' \<longrightarrow>
      resolve_name D cwd_name config = config\<lparr>use_cwd := Some False\<rparr>"
    by (simp add: resolve_name_def)
  have 3: "name (resolve_name D ''2cool'' (config\<lparr>name := Some ''.''\<rparr>)) = Some ''_2cool''"
    "name (resolve_name D ''my-app!'' (config\<lparr>name := Some ''.''\<rparr>)) = Some ''my_app_''"
    "name (resolve_name D [] (config\<lparr>name := Some ''.''\<rparr>)) = Some (DEFAULT_PROJECT_NAME D)"
    by (simp_all add: resolve_name_def sub_non_ident_def char_defs)
  from 1 2 3 show ?thesis by blast
qed

text \<open>The theorem in a directory \<^verbatim>\<open>2cool\<close>, for the names \<^verbatim>\<open>"."\<close> and \<^verbatim>\<open>demo\<close> and for no name.\<close>

theorem resolve_name_sentinel_witness:
  "resolve_name sample_defaults ''2cool'' (cli_args (Some ''.'')) =
     (cli_args (Some ''.''))\<lparr>name := Some ''_2cool'', use_cwd := Some True\<rparr> \<and>
   resolve_name sample_defaults ''2cool'' (cli_args (Some ''demo'')) =
     (cli_args (Some ''demo''))\<lparr>use_cwd := Some False\<rparr> \<and>
   resolve_name sample_defaults ''2cool'' (cli_args None) = (cli_args None)\<lparr>use_cwd := Some False\<rparr>"
  using resolve_name_sentinel[of "cli_args (Some ''.'')" "''2cool''" sample_defaults]
    resolve_name_sentinel[of "cli_args (Some ''demo'')" "''2cool''" sample_defaults]
    resolve_name_sentinel[of "cli_args None" "''2cool''" sample_defaults]
  by (simp add: cli_args_def char_defs Let_def)

text \<open>Each conditional assignment of a key, as an update of that one field.\<close>

lemma update_if_None:
  "(if name c = None then c\<lparr>name := v1\<rparr> else c) =
     c\<lparr>name := (if name c = None then v1 else name c)\<rparr>"
  "(if description c = None then c\<lparr>description := v1\<rparr> else c) =
     c\<lparr>description := (if description c = None then v1 else description c)\<rparr>"
  "(if author c = None then c\<lparr>author := v1\<rparr> else c) =
     c\<lparr>author := (if author c = None then v1 else author c)\<rparr>"
  "(if python c = None then c\<lparr>python := v1\<rparr> else c) =
     c\<lparr>python := (if python c = None then v1 else python c)\<rparr>"
  "(if ci c = None then c\<lparr>ci := v\<rparr> else c) = c\<lparr>ci := (if ci c = None then v else ci c)\<rparr>"
  "(if devcontainer c = None then c\<lparr>devcontainer := v\<rparr> else c) =
     c\<lparr>devcontainer := (if devcontainer c = None then v else devcontainer c)\<rparr>"
  "(if precommit c = None then c\<lparr>precommit := v\<rparr> else c) =
     c\<lparr>precommit := (if precommit c = None then v else precommit c)\<rparr>"
  "(if docker c = None then c\<lparr>docker := v\<rparr> else c) =
     c\<lparr>docker := (if docker c = None then v else docker c)\<rparr>"
  "(if diagrams c = None then c\<lparr>diagrams := v\<rparr> else c) =
     c\<lparr>diagrams := (if diagrams c = None then v else diagrams c)\<rparr>"
  "(if continue c = None then c\<lparr>continue := v\<rparr> else c) =
     c\<lparr>continue := (if continue c = None then v else continue c)\<rparr>"
  by simp_all

lemma apply_defaults_fields:
  "apply_defaults D c =
     c\<lparr>name := Some (str_or (name c) (DEFAULT_PROJECT_NAME D)),
       description := Some (str_or (description c) (DEFAULT_DESCRIPTION D)),
       author := Some (str_or (author c) (DEFAULT_AUTHOR D)),
       ci := (if ci c = None then Some True else ci c),
       devcontainer := (if devcontainer c = None then Some True else devcontainer c),
       precommit := (if precommit c = None then Some True else precommit c),
       docker := (if docker c = None then Some True else docker c),
       diagrams := (if diagrams c = None then Some True else diagrams c),
       continue := (if continue c = None then Some True else continue c)\<rparr>"
  unfolding apply_defaults_def update_if_None by (simp add: Let_def)

lemma prompt_for_config_fields:
  "prompt_for_config D r c =
     c\<lparr>name := (if name c = None then Some (ask (reply_name r) (DEFAULT_PROJECT_NAME D))
                else name c),
       description := (if description c = None
                       then Some (ask (reply_description r) (DEFAULT_DESCRIPTION D))
                       else description c),
       author := (if author c = None then Some (ask (reply_author r) (DEFAULT_AUTHOR D))
                  else author c),
       python := (if python c = None then Some (ask (reply_python r) (DEFAULT_PYTHON_VERSION D))
                  else python c),
       ci := (if ci c = None then Some (ask (reply_ci r) True) else ci c),
       devcontainer := (if devcontainer c = None then Some (ask (reply_devcontainer r) True)
                        else devcontainer c),
       precommit := (if precommit c = None then Some (ask (reply_precommit r) True)
                     else precommit c),
       docker := (if docker c = None then Some (ask (reply_docker r) True) else docker c),
       diagrams := (if diagrams c = None then Some (ask (reply_diagrams r) True)
                    else diagrams c)\<rparr>"
  unfolding prompt_for_config_def update_if_None by (simp add: Let_def)

lemma str_or_idem: "str_or (Some (str_or x d)) d = str_or x d"
  by (simp add: str_or_def split: option.splits)

text \<open>Applying the defaults twice is applying them once, for every configuration.\<close>

lemma apply_defaults_idem: "apply_defaults D (apply_defaults D config) = apply_defaults D config"
  unfolding apply_defaults_fields by (simp add: str_or_idem)

text \<open>
  C8, as the code has it. The defaults change nothing in a configuration whose name,
  description and author are non-empty strings and whose six flags are booleans; a flag
  that is false stays false.
\<close>

theorem apply_defaults_complete:
  assumes "name config = Some n" "n \<noteq> []" "description config = Some d" "d \<noteq> []"
    "author config = Some a" "a \<noteq> []"
    "ci config \<noteq> None" "devcontainer config \<noteq> None" "precommit config \<noteq> None"
    "docker config \<noteq> None" "diagrams config \<noteq> None" "continue config \<noteq> None"
  shows "apply_defaults D config = config"
  unfolding apply_defaults_fields using assms by (simp add: str_or_def)

text \<open>The theorem at a complete configuration with three flags false.\<close>

theorem apply_defaults_complete_witness:
  "apply_defaults sample_defaults complete_config = complete_config \<and>
   docker (apply_defaults sample_defaults complete_config) = Some False"
  using apply_defaults_complete[of complete_config "''demo''" "''A demo''" "''Ada''" sample_defaults]
  by (simp add: complete_config_def)

text \<open>
  A complete configuration whose name is the empty string is changed: \<^verbatim>\<open>x or d\<close> takes
  the default for an empty string as it does for \<^verbatim>\<open>None\<close>.
\<close>

theorem apply_defaults_empty_name_counterexample:
  "apply_defaults sample_defaults (complete_config\<lparr>name := Some []\<rparr>) \<noteq>
     complete_config\<lparr>name := Some []\<rparr> \<and>
   name (apply_defaults sample_defaults (complete_config\<lparr>name := Some []\<rparr>)) = Some ''myproject''"
  unfolding apply_defaults_fields
  by (simp add: str_or_def complete_config_def sample_defaults_def)

section \<open>The round trip of escaping\<close>

lemma escape_toml_string_concat: "escape_toml_string s = concat (map esc s)"
  unfolding escape_toml_string_def
  by (induction s) (auto simp: esc_def backslash_def dquote_def)

lemma toml_body_roundtrip:
  "(\<forall>c\<in>set s. \<not> toml_illegal c) \<Longrightarrow>
   toml_basic_body (concat (map esc s) @ dquote # rest) = Some (s, rest)"
proof (induction s)
  case Nil
  then show ?case by simp
next
  case (Cons c s)
  then have IH: "toml_basic_body (concat (map esc s) @ dquote # rest) = Some (s, rest)"
    and c: "\<not> toml_illegal c" by auto
  have e: "esc backslash = [backslash, backslash]" "esc dquote = [backslash, dquote]"
    "c \<noteq> backslash \<Longrightarrow> c \<noteq> dquote \<Longrightarrow> esc c = [c]"
    by (simp_all add: esc_def)
  have t: "toml_escape_char backslash = Some backslash" "toml_escape_char dquote = Some dquote"
    "backslash \<noteq> dquote" "backslash \<noteq> CHR ''u''" "backslash \<noteq> CHR ''U''"
    "dquote \<noteq> CHR ''u''" "dquote \<noteq> CHR ''U''"
    by (simp_all add: toml_escape_char_def backslash_def dquote_def)
  consider "c = backslash" | "c = dquote" | "c \<noteq> backslash" "c \<noteq> dquote" by blast
  then show ?case
  proof cases
    case 1
    then show ?thesis using IH e t by simp
  next
    case 2
    then show ?thesis using IH e t by simp
  next
    case 3
    then show ?thesis using IH c e by simp
  qed
qed

text \<open>
  C3, as the code has it. A string with none of the control characters that a basic
  string excludes is read back exactly: the escaped text between double quotes parses to
  the string itself, and the parse ends at the closing quote.
\<close>

theorem escape_toml_roundtrip:
  assumes "\<forall>c\<in>set s. \<not> toml_illegal c"
  shows "toml_basic_string (dquote # escape_toml_string s @ dquote # rest) = Some (s, rest)"
  using toml_body_roundtrip[OF assms] by (simp add: toml_basic_string_def escape_toml_string_concat)

text \<open>The theorem at the author \<^verbatim>\<open>O'Brien "Bob"\<close>.\<close>

theorem escape_toml_roundtrip_witness:
  "list_all (\<lambda>c. \<not> toml_illegal c) (''O'Brien '' @ [dquote] @ ''Bob'' @ [dquote]) \<and>
   escape_toml_string (''O'Brien '' @ [dquote] @ ''Bob'' @ [dquote]) =
     ''O'Brien '' @ [backslash, dquote] @ ''Bob'' @ [backslash, dquote] \<and>
   toml_basic_string (dquote # escape_toml_string (''O'Brien '' @ [dquote] @ ''Bob'' @ [dquote])
     @ [dquote]) = Some (''O'Brien '' @ [dquote] @ ''Bob'' @ [dquote], [])"
  using escape_toml_roundtrip[of "''O'Brien '' @ [dquote] @ ''Bob'' @ [dquote]" "[]"]
  by (simp add: toml_illegal_def dquote_def escape_toml_string_def backslash_def)

text \<open>
  A description of two lines is not read back: escaping leaves the line feed as it is,
  and a basic string may not hold one.
\<close>

theorem escape_toml_newline_counterexample:
  "toml_basic_string (dquote # escape_toml_string ''a\<newline>b'' @ [dquote]) = None"
  by (simp add: toml_basic_string_def escape_toml_string_def toml_illegal_def dquote_def
      backslash_def)

section \<open>The file system: when an operation succeeds and what it changes\<close>

lemma is_file_simps [simp]:
  "is_file [] (File c) = True" "is_file [] (Dir es) = False" "is_file (k # ks) (File c) = False"
  "is_file (k # ks) (Dir es) = (case map_of es k of None \<Rightarrow> False | Some m \<Rightarrow> is_file ks m)"
  by (simp_all add: is_file_def split: option.splits)

lemma is_dir_simps [simp]:
  "is_dir [] (File c) = False" "is_dir [] (Dir es) = True" "is_dir (k # ks) (File c) = False"
  "is_dir (k # ks) (Dir es) = (case map_of es k of None \<Rightarrow> False | Some m \<Rightarrow> is_dir ks m)"
  by (simp_all add: is_dir_def split: option.splits)

lemma not_file_and_dir: "is_file p t \<Longrightarrow> \<not> is_dir p t"
  by (auto simp: is_file_def is_dir_def split: option.splits node.splits)

lemma lookup_empty_dir: "ks \<noteq> [] \<Longrightarrow> lookup ks (Dir []) = None"
  by (cases ks) auto

lemma is_dir_prefix: "is_dir q t \<Longrightarrow> prefix r q \<Longrightarrow> is_dir r t"
proof (induction r arbitrary: q t)
  case Nil
  then show ?case by (cases t; cases q) auto
next
  case (Cons k r)
  then obtain q' where q: "q = k # q'" "prefix r q'" by (cases q) auto
  with Cons.prems(1) obtain es where t: "t = Dir es" by (cases t) auto
  with q Cons.prems(1) obtain m where m: "map_of es k = Some m" "is_dir q' m"
    by (auto split: option.splits)
  with Cons.IH q show ?case using t by simp
qed

text \<open>
  \<^verbatim>\<open>mkdir\<close> with parents succeeds exactly when no path on the way is a regular file. It
  then leaves every other path as it was and makes every path on the way a directory.
\<close>

lemma mkdir_p_succeeds_iff:
  "(\<exists>t'. mkdir_p q t = Inr t') \<longleftrightarrow> (\<forall>r. prefix r q \<longrightarrow> \<not> is_file r t)"
proof (induction q t rule: mkdir_p.induct)
  case (1 es)
  then show ?case by simp
next
  case (2 c)
  have "prefix [] ([]::path) \<and> is_file [] (File c)" by simp
  then have "\<not> (\<forall>r. prefix r ([]::path) \<longrightarrow> \<not> is_file r (File c))" by blast
  then show ?case by simp
next
  case (3 k ks c)
  have "prefix [] (k # ks) \<and> is_file [] (File c)" by simp
  then have "\<not> (\<forall>r. prefix r (k # ks) \<longrightarrow> \<not> is_file r (File c))" by blast
  then show ?case by simp
next
  case (4 k ks es)
  define m where "m = (case map_of es k of None \<Rightarrow> Dir [] | Some m \<Rightarrow> m)"
  have IH: "(\<exists>t'. mkdir_p ks m = Inr t') \<longleftrightarrow> (\<forall>r. prefix r ks \<longrightarrow> \<not> is_file r m)"
    using 4 unfolding m_def .
  have file_m: "is_file (k # r) (Dir es) = is_file r m" for r
    by (cases r) (auto simp: m_def split: option.splits)
  have "(\<forall>r. prefix r (k # ks) \<longrightarrow> \<not> is_file r (Dir es)) \<longleftrightarrow> (\<forall>r. prefix r ks \<longrightarrow> \<not> is_file r m)"
  proof
    assume a: "\<forall>r. prefix r (k # ks) \<longrightarrow> \<not> is_file r (Dir es)"
    show "\<forall>r. prefix r ks \<longrightarrow> \<not> is_file r m"
    proof (intro allI impI)
      fix r assume "prefix r ks"
      then have "prefix (k # r) (k # ks)" by simp
      with a have "\<not> is_file (k # r) (Dir es)" by blast
      with file_m[of r] show "\<not> is_file r m" by blast
    qed
  next
    assume a: "\<forall>r. prefix r ks \<longrightarrow> \<not> is_file r m"
    show "\<forall>r. prefix r (k # ks) \<longrightarrow> \<not> is_file r (Dir es)"
    proof (intro allI impI)
      fix r assume p: "prefix r (k # ks)"
      show "\<not> is_file r (Dir es)"
      proof (cases r)
        case Nil
        then show ?thesis by simp
      next
        case (Cons j r')
        with p have "j = k" "prefix r' ks" by auto
        with a have "\<not> is_file r' m" by blast
        with file_m[of r'] \<open>j = k\<close> Cons show ?thesis by blast
      qed
    qed
  qed
  moreover have "(\<exists>t'. mkdir_p (k # ks) (Dir es) = Inr t') \<longleftrightarrow> (\<exists>t'. mkdir_p ks m = Inr t')"
    by (auto simp: m_def split: sum.splits)
  ultimately show ?case using IH by simp
qed

lemma mkdir_p_lookup_other:
  "mkdir_p q t = Inr t' \<Longrightarrow> \<not> prefix r q \<Longrightarrow> lookup r t' = lookup r t"
proof (induction q t arbitrary: t' r rule: mkdir_p.induct)
  case (4 k ks es)
  define m where "m = (case map_of es k of None \<Rightarrow> Dir [] | Some m \<Rightarrow> m)"
  from 4(2) obtain m' where m': "mkdir_p ks m = Inr m'" "t' = Dir (AList.update k m' es)"
    by (auto simp: m_def split: sum.splits)
  from 4(3) obtain j rs where r: "r = j # rs" by (cases r) auto
  show ?case
  proof (cases "j = k")
    case False
    then show ?thesis using r m' by (simp add: update_conv')
  next
    case True
    with 4(3) r have np: "\<not> prefix rs ks" by simp
    have "lookup rs m' = lookup rs m"
      using 4(1)[OF m'(1)[unfolded m_def] np] unfolding m_def .
    moreover have "lookup (k # rs) (Dir es) = lookup rs m"
    proof (cases "map_of es k")
      case None
      from np have "rs \<noteq> []" by auto
      with None show ?thesis by (simp add: m_def lookup_empty_dir)
    next
      case (Some x)
      then show ?thesis by (simp add: m_def)
    qed
    ultimately show ?thesis using True r m' by (simp add: update_conv')
  qed
qed auto

lemma mkdir_p_is_dir:
  "mkdir_p q t = Inr t' \<Longrightarrow> prefix r q \<Longrightarrow> is_dir r t'"
proof (induction q t arbitrary: t' r rule: mkdir_p.induct)
  case (4 k ks es)
  define m where "m = (case map_of es k of None \<Rightarrow> Dir [] | Some m \<Rightarrow> m)"
  from 4(2) obtain m' where m': "mkdir_p ks m = Inr m'" "t' = Dir (AList.update k m' es)"
    by (auto simp: m_def split: sum.splits)
  show ?case
  proof (cases r)
    case Nil
    then show ?thesis using m' by simp
  next
    case (Cons j rs)
    with 4(3) have "j = k" "prefix rs ks" by auto
    with 4(1)[OF m'(1)[unfolded m_def]] Cons m' show ?thesis by (simp add: update_conv')
  qed
qed auto

lemma mkdir_p_effect:
  assumes "mkdir_p q t = Inr t'"
  shows "is_file r t' = is_file r t" "is_dir r t' = (prefix r q \<or> is_dir r t)"
    "is_file r t \<Longrightarrow> lookup r t' = lookup r t"
proof -
  from assms have nf: "\<forall>r. prefix r q \<longrightarrow> \<not> is_file r t"
    using mkdir_p_succeeds_iff by blast
  show "is_file r t' = is_file r t"
  proof (cases "prefix r q")
    case True
    with nf have "\<not> is_file r t" by blast
    moreover have "\<not> is_file r t'" using mkdir_p_is_dir[OF assms True] not_file_and_dir by blast
    ultimately show ?thesis by simp
  next
    case False
    then show ?thesis using mkdir_p_lookup_other[OF assms] by (simp add: is_file_def)
  qed
  show "is_dir r t' = (prefix r q \<or> is_dir r t)"
  proof (cases "prefix r q")
    case True
    then show ?thesis using mkdir_p_is_dir[OF assms] by simp
  next
    case False
    then show ?thesis using mkdir_p_lookup_other[OF assms] by (simp add: is_dir_def)
  qed
  show "is_file r t \<Longrightarrow> lookup r t' = lookup r t"
    using nf mkdir_p_lookup_other[OF assms] by blast
qed

lemma butlast_Cons2: "butlast (k # k' # ks) = k # butlast (k' # ks)"
  by simp

text \<open>
  \<^verbatim>\<open>write_text\<close> succeeds exactly when the parent is a directory and the path is not one.
  It then holds the content at the path and leaves every other file and every directory
  as it was.
\<close>

lemma write_text_succeeds_iff:
  "(\<exists>t'. write_text p content t = Inr t') \<longleftrightarrow> p \<noteq> [] \<and> is_dir (butlast p) t \<and> \<not> is_dir p t"
proof (induction p content t rule: write_text.induct)
  case (1 content n)
  then show ?case by simp
next
  case (2 k ks content c)
  then show ?case by (cases ks) auto
next
  case (3 k content es)
  then show ?case by (auto split: option.splits node.splits)
next
  case (4 k k' ks content es)
  show ?case
  proof (cases "map_of es k")
    case None
    then show ?thesis by simp
  next
    case (Some m)
    with 4 have IH: "(\<exists>t'. write_text (k' # ks) content m = Inr t') \<longleftrightarrow>
       is_dir (butlast (k' # ks)) m \<and> \<not> is_dir (k' # ks) m" by simp
    have "(\<exists>t'. write_text (k # k' # ks) content (Dir es) = Inr t') \<longleftrightarrow>
          (\<exists>t'. write_text (k' # ks) content m = Inr t')"
      using Some by (auto split: sum.splits)
    moreover have "is_dir (butlast (k # k' # ks)) (Dir es) = is_dir (butlast (k' # ks)) m"
      using Some by (simp del: butlast.simps add: butlast_Cons2)
    moreover have "is_dir (k # k' # ks) (Dir es) = is_dir (k' # ks) m"
      using Some by simp
    ultimately show ?thesis using IH by simp
  qed
qed

lemma write_text_lookup_self:
  "write_text p content t = Inr t' \<Longrightarrow> lookup p t' = Some (File content)"
proof (induction p content t arbitrary: t' rule: write_text.induct)
  case (3 k content es)
  then show ?case by (auto simp: update_conv' split: option.splits node.splits)
next
  case (4 k k' ks content es)
  then show ?case by (auto simp: update_conv' split: option.splits sum.splits)
qed auto

lemma lookup_below_file: "lookup p t = Some (File c) \<Longrightarrow> rs \<noteq> [] \<Longrightarrow> lookup (p @ rs) t = None"
proof (induction p t rule: lookup.induct)
  case (1 n)
  then show ?case by (cases rs) auto
next
  case (3 k ks es)
  then show ?case by (auto split: option.splits)
qed auto

lemma lookup_below_none: "lookup p t = None \<Longrightarrow> lookup (p @ rs) t = None"
proof (induction p t rule: lookup.induct)
  case (3 k ks es)
  then show ?case by (auto split: option.splits)
qed auto

lemma write_text_lookup_other:
  "write_text p content t = Inr t' \<Longrightarrow> \<not> prefix r p \<Longrightarrow> lookup r t' = lookup r t"
proof (induction p content t arbitrary: t' r rule: write_text.induct)
  case (3 k content es)
  from 3(2) obtain j rs where r: "r = j # rs" by (cases r) auto
  from 3(1) have t': "t' = Dir (AList.update k (File content) es)"
    and nd: "\<not> is_dir [k] (Dir es)"
    by (auto split: option.splits node.splits)
  show ?case
  proof (cases "j = k")
    case False
    then show ?thesis using r t' by (simp add: update_conv')
  next
    case True
    with 3(2) r have "rs \<noteq> []" by auto
    then obtain x xs where rs: "rs = x # xs" by (cases rs) auto
    have "lookup (k # rs) (Dir es) = None"
    proof (cases "map_of es k")
      case None
      then show ?thesis by simp
    next
      case (Some x2)
      with nd obtain c where "x2 = File c" by (cases x2) auto
      with Some rs show ?thesis by simp
    qed
    then show ?thesis using True r t' rs by (simp add: update_conv')
  qed
next
  case (4 k k' ks content es)
  from 4(3) obtain j rs where r: "r = j # rs" by (cases r) auto
  from 4(2) obtain m m' where m: "map_of es k = Some m" "write_text (k' # ks) content m = Inr m'"
    "t' = Dir (AList.update k m' es)"
    by (auto split: option.splits sum.splits)
  show ?case
  proof (cases "j = k")
    case False
    then show ?thesis using r m by (simp add: update_conv')
  next
    case True
    with 4(3) r have "\<not> prefix rs (k' # ks)" by simp
    from 4(1)[OF m(1) m(2) this] show ?thesis using True r m by (simp add: update_conv')
  qed
qed auto

lemma write_text_effect:
  assumes "write_text p content t = Inr t'"
  shows "is_file r t' = (r = p \<or> is_file r t)" "is_dir r t' = is_dir r t"
    "r \<noteq> p \<Longrightarrow> is_file r t \<Longrightarrow> lookup r t' = lookup r t"
proof -
  from assms have ok: "p \<noteq> []" "is_dir (butlast p) t" "\<not> is_dir p t"
    using write_text_succeeds_iff by blast+
  have self: "lookup p t' = Some (File content)" by (rule write_text_lookup_self[OF assms])
  have sp_dir: "is_dir r t" if "strict_prefix r p" for r
  proof -
    from that ok(1) have "prefix r (butlast p)"
      by (metis append_butlast_last_id prefix_snoc strict_prefix_def)
    with ok(2) show ?thesis by (rule is_dir_prefix)
  qed
  have sp_dir': "is_dir r t'" if "strict_prefix r p" for r
  proof -
    from that obtain z zs where p: "p = r @ z # zs" by (auto elim: strict_prefixE')
    show ?thesis
    proof (rule ccontr)
      assume nd: "\<not> is_dir r t'"
      then consider "lookup r t' = None" | c where "lookup r t' = Some (File c)"
        by (auto simp: is_dir_def split: option.splits node.splits)
      then have "lookup (r @ z # zs) t' = None"
        by cases (auto intro: lookup_below_none lookup_below_file)
      with self p show False by simp
    qed
  qed
  show "is_file r t' = (r = p \<or> is_file r t)"
  proof (cases "prefix r p")
    case False
    then show ?thesis using write_text_lookup_other[OF assms] by (auto simp: is_file_def)
  next
    case True
    show ?thesis
    proof (cases "r = p")
      case True
      then show ?thesis using self by (simp add: is_file_def)
    next
      case False
      with True have "strict_prefix r p" by (simp add: strict_prefix_def)
      then show ?thesis using sp_dir sp_dir' not_file_and_dir False by blast
    qed
  qed
  show "is_dir r t' = is_dir r t"
  proof (cases "prefix r p")
    case False
    then show ?thesis using write_text_lookup_other[OF assms] by (auto simp: is_dir_def)
  next
    case True
    show ?thesis
    proof (cases "r = p")
      case True
      then show ?thesis using self ok(3) by (simp add: is_dir_def)
    next
      case False
      with True have "strict_prefix r p" by (simp add: strict_prefix_def)
      then show ?thesis using sp_dir sp_dir' by blast
    qed
  qed
  show "r \<noteq> p \<Longrightarrow> is_file r t \<Longrightarrow> lookup r t' = lookup r t"
  proof -
    assume a: "r \<noteq> p" "is_file r t"
    have "\<not> prefix r p"
    proof
      assume "prefix r p"
      with a(1) have "strict_prefix r p" by (simp add: strict_prefix_def)
      with sp_dir a(2) not_file_and_dir show False by blast
    qed
    then show ?thesis by (rule write_text_lookup_other[OF assms])
  qed
qed

lemma is_file_read_text: "is_file r t \<longleftrightarrow> read_text r t \<noteq> None"
  by (auto simp: is_file_def read_text_def split: option.splits node.splits)

lemma read_text_mkdir_p: "mkdir_p q t = Inr t' \<Longrightarrow> read_text r t' = read_text r t"
proof -
  assume a: "mkdir_p q t = Inr t'"
  show ?thesis
  proof (cases "is_file r t")
    case True
    then show ?thesis using mkdir_p_effect(3)[OF a] by (simp add: read_text_def)
  next
    case False
    with mkdir_p_effect(1)[OF a, of r] show ?thesis by (simp add: is_file_read_text)
  qed
qed

lemma read_text_write_text:
  "write_text p content t = Inr t' \<Longrightarrow>
   read_text r t' = (if r = p then Some content else read_text r t)"
proof -
  assume a: "write_text p content t = Inr t'"
  show ?thesis
  proof (cases "r = p")
    case True
    then show ?thesis using write_text_lookup_self[OF a] by (simp add: read_text_def)
  next
    case False
    show ?thesis
    proof (cases "is_file r t")
      case True
      then show ?thesis using False write_text_effect(3)[OF a] by (simp add: read_text_def)
    next
      case f: False
      with write_text_effect(1)[OF a, of r] False show ?thesis by (simp add: is_file_read_text)
    qed
  qed
qed

lemma strict_prefix_snoc: "strict_prefix r (ys @ [y]) \<longleftrightarrow> prefix r ys"
proof
  assume "strict_prefix r (ys @ [y])"
  then show "prefix r ys" by (auto simp: strict_prefix_def prefix_snoc)
next
  assume a: "prefix r ys"
  then have "length r \<le> length ys" by (rule prefix_length_le)
  then have "r \<noteq> ys @ [y]" by auto
  with a show "strict_prefix r (ys @ [y])" by (simp add: strict_prefix_def prefix_snoc)
qed

lemma strict_prefix_butlast: "p \<noteq> [] \<Longrightarrow> strict_prefix r p \<longleftrightarrow> prefix r (butlast p)"
  using strict_prefix_snoc[of r "butlast p" "last p"] by simp

section \<open>One call of \<^verbatim>\<open>_write_file\<close>\<close>

text \<open>
  A call succeeds exactly when no proper prefix of the path is a regular file, the path
  is not a directory and lies below the root. A call that succeeds has written the
  content, made the parents directories and appended the relative path; a call that
  fails has changed no file and appended nothing.
\<close>

lemma write_file_succeeds_iff:
  "(\<exists>st'. write_file p content root st = Inr st') \<longleftrightarrow>
     p \<noteq> [] \<and> (\<forall>r. strict_prefix r p \<longrightarrow> \<not> is_file r (tree st)) \<and> \<not> is_dir p (tree st) \<and>
     prefix root p"
proof (cases "p = []")
  case True
  then show ?thesis by (auto simp: write_file_def split: sum.splits)
next
  case False
  note sp = strict_prefix_butlast[OF False]
  show ?thesis
  proof (cases "mkdir_p (butlast p) (tree st)")
    case (Inl e)
    then have "\<not> (\<exists>t'. mkdir_p (butlast p) (tree st) = Inr t')" by simp
    then have "\<not> (\<forall>r. strict_prefix r p \<longrightarrow> \<not> is_file r (tree st))"
      unfolding mkdir_p_succeeds_iff sp by simp
    then show ?thesis using Inl by (simp add: write_file_def)
  next
    case (Inr t1)
    then have nf: "\<forall>r. strict_prefix r p \<longrightarrow> \<not> is_file r (tree st)"
      using mkdir_p_succeeds_iff[of "butlast p" "tree st"] unfolding sp by blast
    have d1: "is_dir (butlast p) t1" using mkdir_p_effect(2)[OF Inr, of "butlast p"] by simp
    have "\<not> prefix p (butlast p)" using False
      by (metis prefix_order.less_irrefl sp)
    then have d2: "is_dir p t1 = is_dir p (tree st)" using mkdir_p_effect(2)[OF Inr, of p] by simp
    have wt: "(\<exists>t'. write_text p content t1 = Inr t') \<longleftrightarrow> \<not> is_dir p (tree st)"
      unfolding write_text_succeeds_iff using False d1 d2 by simp
    show ?thesis
    proof (cases "write_text p content t1")
      case (Inl e)
      with wt have "is_dir p (tree st)" by auto
      then show ?thesis using Inr Inl by (simp add: write_file_def)
    next
      case r: (Inr t2)
      with wt have "\<not> is_dir p (tree st)" by auto
      then show ?thesis using Inr r nf False
        by (auto simp: write_file_def relative_to_def)
    qed
  qed
qed

lemma write_file_Inr:
  assumes "write_file p content root st = Inr st'"
  shows "created st' = created st @ [drop (length root) p]"
    and "prefix root p"
    and "read_text r (tree st') = (if r = p then Some content else read_text r (tree st))"
    and "is_dir r (tree st') = (strict_prefix r p \<or> is_dir r (tree st))"
proof -
  from assms obtain t1 t2 where t: "mkdir_p (butlast p) (tree st) = Inr t1"
    "write_text p content t1 = Inr t2" "prefix root p"
    "st' = st\<lparr>tree := t2, created := created st @ [drop (length root) p]\<rparr>"
    by (auto simp: write_file_def relative_to_def split: sum.splits if_splits)
  from assms have "p \<noteq> []" using write_file_succeeds_iff by blast
  note sp = strict_prefix_butlast[OF this]
  show "created st' = created st @ [drop (length root) p]" using t by simp
  show "prefix root p" by fact
  show "read_text r (tree st') = (if r = p then Some content else read_text r (tree st))"
    using t read_text_write_text[OF t(2), of r] read_text_mkdir_p[OF t(1), of r] by simp
  show "is_dir r (tree st') = (strict_prefix r p \<or> is_dir r (tree st))"
    using t write_text_effect(2)[OF t(2), of r] mkdir_p_effect(2)[OF t(1), of r] sp by simp
qed

lemma write_file_Inl:
  assumes "write_file p content root st = Inl (e, st')" "prefix root p"
  shows "created st' = created st" and "read_text r (tree st') = read_text r (tree st)"
proof -
  from assms consider "st' = st"
    | t1 where "mkdir_p (butlast p) (tree st) = Inr t1" "st' = st\<lparr>tree := t1\<rparr>"
    by (auto simp: write_file_def relative_to_def split: sum.splits if_splits)
  then have "created st' = created st \<and> read_text r (tree st') = read_text r (tree st)"
    by cases (auto simp: read_text_mkdir_p)
  then show "created st' = created st" and "read_text r (tree st') = read_text r (tree st)"
    by simp_all
qed

lemma write_file_lookup_other:
  assumes "write_file p content root st = Inr st'" "\<not> prefix r p"
  shows "lookup r (tree st') = lookup r (tree st)"
proof -
  from assms(1) obtain t1 t2 where t: "mkdir_p (butlast p) (tree st) = Inr t1"
    "write_text p content t1 = Inr t2" "tree st' = t2"
    by (auto simp: write_file_def relative_to_def split: sum.splits if_splits)
  have "\<not> prefix r (butlast p)"
    using assms(2) by (metis prefix_order.trans prefixeq_butlast)
  with mkdir_p_lookup_other[OF t(1)] write_text_lookup_other[OF t(2) assms(2)] t(3)
  show ?thesis by simp
qed

lemma write_file_dir_mono:
  assumes "write_file p content root st = Inr st' \<or> write_file p content root st = Inl (e, st')"
    and "is_dir r (tree st)"
  shows "is_dir r (tree st')"
proof -
  from assms(1) consider "st' = st"
    | t1 where "mkdir_p (butlast p) (tree st) = Inr t1" "tree st' = t1"
    | t1 t2 where "mkdir_p (butlast p) (tree st) = Inr t1" "write_text p content t1 = Inr t2"
        "tree st' = t2"
    by (auto simp: write_file_def relative_to_def split: sum.splits if_splits)
  then show ?thesis
  proof cases
    case 1
    with assms(2) show ?thesis by simp
  next
    case 2
    with assms(2) mkdir_p_effect(2)[OF 2(1), of r] show ?thesis by simp
  next
    case 3
    with assms(2) mkdir_p_effect(2)[OF 3(1), of r] write_text_effect(2)[OF 3(2), of r]
    show ?thesis by simp
  qed
qed

section \<open>A sequence of calls\<close>

lemma and_then_simps [simp]:
  "and_then (Inl x) f = Inl x" "and_then (Inr st) f = f st" "and_then r Inr = r"
  by (simp_all add: and_then_def split: sum.splits)

lemma and_then_assoc: "and_then (and_then r f) g = and_then r (\<lambda>st. and_then (f st) g)"
  by (simp add: and_then_def split: sum.splits)

lemma write_files_Nil: "write_files root [] = Inr"
  by (rule ext) simp

lemma write_files_Cons:
  "write_files root ((rel, content) # rest) =
     (\<lambda>st. and_then (write_file (root @ rel) content root st) (write_files root rest))"
  by (rule ext) simp

lemma write_files_append:
  "write_files root (xs @ ys) st = and_then (write_files root xs st) (write_files root ys)"
proof (induction xs arbitrary: st)
  case Nil
  then show ?case by simp
next
  case (Cons x xs)
  obtain rel content where x: "x = (rel, content)" by (cases x)
  show ?case using Cons
    by (cases "write_file (root @ rel) content root st") (simp_all add: x)
qed

lemma write_files_dir_mono:
  "is_dir r (tree st) \<Longrightarrow> is_dir r (tree (final_state (write_files root plan st)))"
proof (induction plan arbitrary: st)
  case Nil
  then show ?case by (simp add: final_state_def)
next
  case (Cons x plan)
  obtain rel content where x: "x = (rel, content)" by (cases x)
  show ?case
  proof (cases "write_file (root @ rel) content root st")
    case (Inl a)
    obtain e st' where a: "a = (e, st')" by (cases a)
    from write_file_dir_mono[of "root @ rel" content root st st' e] Inl a Cons.prems
    show ?thesis by (simp add: x final_state_def)
  next
    case (Inr st1)
    from write_file_dir_mono[of "root @ rel" content root st st1] Inr Cons.prems
    have "is_dir r (tree st1)" by simp
    from Cons.IH[OF this] Inr show ?thesis by (simp add: x)
  qed
qed

lemma write_files_lookup_other:
  assumes "write_files root plan st = Inr st'"
    and "\<forall>rel\<in>set (map fst plan). \<not> prefix r (root @ rel)"
  shows "lookup r (tree st') = lookup r (tree st)"
  using assms
proof (induction plan arbitrary: st)
  case Nil
  then show ?case by simp
next
  case (Cons x plan)
  obtain rel content where x: "x = (rel, content)" by (cases x)
  from Cons.prems(1) obtain st1 where st1: "write_file (root @ rel) content root st = Inr st1"
    "write_files root plan st1 = Inr st'"
    by (cases "write_file (root @ rel) content root st") (simp_all add: x)
  from Cons.prems(2) have "\<not> prefix r (root @ rel)" by (simp add: x)
  from write_file_lookup_other[OF st1(1) this] Cons.IH[OF st1(2)] Cons.prems(2)
  show ?case by simp
qed

text \<open>
  Where a sequence of calls ends, by its last call or by an exception: the entries
  appended are the paths of the first \<open>k\<close> files of the list, the files of the tree are
  the files it had with those \<open>k\<close> written over them, the parents of those \<open>k\<close> are
  directories, and the sequence returns exactly when \<open>k\<close> is the whole list.
\<close>

lemma write_files_run:
  "\<exists>k\<le>length plan.
     created (final_state (write_files root plan st)) = created st @ map fst (take k plan) \<and>
     (\<lambda>r. read_text r (tree (final_state (write_files root plan st)))) =
       (\<lambda>r. read_text r (tree st)) ++ map_of (written root (take k plan)) \<and>
     (\<forall>rel\<in>set (map fst (take k plan)). \<forall>r. strict_prefix r (root @ rel) \<longrightarrow>
        is_dir r (tree (final_state (write_files root plan st)))) \<and>
     ((\<exists>st'. write_files root plan st = Inr st') \<longleftrightarrow> k = length plan)"
proof (induction plan arbitrary: st)
  case Nil
  then show ?case by (simp add: final_state_def written_def)
next
  case (Cons x plan)
  obtain rel content where x: "x = (rel, content)" by (cases x)
  show ?case
  proof (cases "write_file (root @ rel) content root st")
    case (Inl a)
    obtain e st' where a: "a = (e, st')" by (cases a)
    have "created st' = created st" "\<And>r. read_text r (tree st') = read_text r (tree st)"
      using write_file_Inl[OF Inl[unfolded a]] by simp_all
    then have "created (final_state (write_files root (x # plan) st)) =
         created st @ map fst (take 0 (x # plan)) \<and>
       (\<lambda>r. read_text r (tree (final_state (write_files root (x # plan) st)))) =
         (\<lambda>r. read_text r (tree st)) ++ map_of (written root (take 0 (x # plan))) \<and>
       (\<forall>rel\<in>set (map fst (take 0 (x # plan))). \<forall>r. strict_prefix r (root @ rel) \<longrightarrow>
          is_dir r (tree (final_state (write_files root (x # plan) st)))) \<and>
       ((\<exists>st'. write_files root (x # plan) st = Inr st') \<longleftrightarrow> 0 = length (x # plan))"
      using Inl a by (simp add: x final_state_def written_def)
    then show ?thesis by blast
  next
    case (Inr st1)
    let ?fin = "final_state (write_files root plan st1)"
    from Cons[of st1] obtain k where k: "k \<le> length plan"
      "created ?fin = created st1 @ map fst (take k plan)"
      "(\<lambda>r. read_text r (tree ?fin)) =
         (\<lambda>r. read_text r (tree st1)) ++ map_of (written root (take k plan))"
      "\<forall>rel\<in>set (map fst (take k plan)). \<forall>r. strict_prefix r (root @ rel) \<longrightarrow>
         is_dir r (tree ?fin)"
      "(\<exists>st'. write_files root plan st1 = Inr st') \<longleftrightarrow> k = length plan" by blast
    have fin: "final_state (write_files root (x # plan) st) = ?fin" using Inr by (simp add: x)
    have c1: "created st1 = created st @ [rel]" using write_file_Inr(1)[OF Inr] by simp
    have r1: "(\<lambda>r. read_text r (tree st1)) = (\<lambda>r. read_text r (tree st))(root @ rel \<mapsto> content)"
      using write_file_Inr(3)[OF Inr] by (auto simp: fun_eq_iff)
    have w: "written root (take (Suc k) (x # plan)) =
        written root (take k plan) @ [(root @ rel, content)]"
      by (simp add: written_def x)
    have m: "(\<lambda>r. read_text r (tree st))(root @ rel \<mapsto> content) ++ map_of (written root (take k plan))
        = (\<lambda>r. read_text r (tree st)) ++ map_of (written root (take (Suc k) (x # plan)))"
      unfolding w by (simp add: fun_eq_iff map_add_def split: option.splits)
    have d: "is_dir r (tree ?fin)" if "strict_prefix r (root @ rel)" for r
    proof -
      from that write_file_Inr(4)[OF Inr, of r] have "is_dir r (tree st1)" by simp
      then show ?thesis by (rule write_files_dir_mono)
    qed
    have "Suc k \<le> length (x # plan) \<and>
       created ?fin = created st @ map fst (take (Suc k) (x # plan)) \<and>
       (\<lambda>r. read_text r (tree ?fin)) =
         (\<lambda>r. read_text r (tree st)) ++ map_of (written root (take (Suc k) (x # plan))) \<and>
       (\<forall>rel\<in>set (map fst (take (Suc k) (x # plan))). \<forall>r. strict_prefix r (root @ rel) \<longrightarrow>
          is_dir r (tree ?fin)) \<and>
       ((\<exists>st'. write_files root (x # plan) st = Inr st') \<longleftrightarrow> Suc k = length (x # plan))"
      using k c1 Inr d unfolding m[symmetric] r1[symmetric] by (simp add: x)
    then show ?thesis unfolding fin by blast
  qed
qed

text \<open>
  A sequence of calls returns when no path of the list is a proper prefix of another and
  each is free in the tree at the start.
\<close>

lemma write_files_succeeds:
  assumes "\<forall>rel\<in>set (map fst plan). rel \<noteq> [] \<and>
             (\<forall>r. strict_prefix r (root @ rel) \<longrightarrow> \<not> is_file r (tree st)) \<and>
             \<not> is_dir (root @ rel) (tree st)"
    and "\<forall>a\<in>set (map fst plan). \<forall>b\<in>set (map fst plan). \<not> strict_prefix a b"
  shows "\<exists>st'. write_files root plan st = Inr st'"
  using assms
proof (induction plan arbitrary: st)
  case Nil
  then show ?case by simp
next
  case (Cons x plan)
  obtain rel content where x: "x = (rel, content)" by (cases x)
  from Cons.prems(1) have h: "rel \<noteq> []"
    "\<forall>r. strict_prefix r (root @ rel) \<longrightarrow> \<not> is_file r (tree st)"
    "\<not> is_dir (root @ rel) (tree st)" by (simp_all add: x)
  then obtain st1 where st1: "write_file (root @ rel) content root st = Inr st1"
    using write_file_succeeds_iff[of "root @ rel" content root st] by auto
  have "\<forall>b\<in>set (map fst plan). b \<noteq> [] \<and>
             (\<forall>r. strict_prefix r (root @ b) \<longrightarrow> \<not> is_file r (tree st1)) \<and>
             \<not> is_dir (root @ b) (tree st1)"
  proof
    fix b assume b: "b \<in> set (map fst plan)"
    with Cons.prems(1) have hb: "b \<noteq> []"
      "\<forall>r. strict_prefix r (root @ b) \<longrightarrow> \<not> is_file r (tree st)"
      "\<not> is_dir (root @ b) (tree st)" by auto
    from b Cons.prems(2) have np: "\<not> strict_prefix rel b" "\<not> strict_prefix b rel"
      by (auto simp: x)
    have "\<not> is_file r (tree st1)" if "strict_prefix r (root @ b)" for r
    proof -
      from that np(1) have "r \<noteq> root @ rel" by (auto simp: strict_prefix_def)
      with write_file_Inr(3)[OF st1, of r] hb(2) that show ?thesis
        by (simp add: is_file_read_text)
    qed
    moreover have "\<not> is_dir (root @ b) (tree st1)"
      using write_file_Inr(4)[OF st1, of "root @ b"] hb(3) np(2)
      by (auto simp: strict_prefix_def)
    ultimately show "b \<noteq> [] \<and>
             (\<forall>r. strict_prefix r (root @ b) \<longrightarrow> \<not> is_file r (tree st1)) \<and>
             \<not> is_dir (root @ b) (tree st1)" using hb(1) by blast
  qed
  moreover have "\<forall>a\<in>set (map fst plan). \<forall>b\<in>set (map fst plan). \<not> strict_prefix a b"
    using Cons.prems(2) by simp
  ultimately obtain st' where "write_files root plan st1 = Inr st'"
    using Cons.IH by blast
  then show ?case using st1 by (simp add: x)
qed

section \<open>The generator writes its table\<close>

lemmas group_defs = source_tree_group_def tests_group_def root_files_group_def vscode_group_def
  continue_group_def docker_group_def ci_group_def devcontainer_group_def precommit_group_def
  diagrams_group_def

lemma planned_files_append:
  "planned_files render context (xs @ ys) =
     planned_files render context xs @ planned_files render context ys"
  by (simp add: planned_files_def)

lemma planned_files_gated:
  "write_files root (planned_files render context (gated flag xs)) st =
     (if truthy flag then write_files root (planned_files render context xs) st else Inr st)"
  by (simp add: gated_def planned_files_def)

lemma group_writes:
  "generate_source_tree render (root @ [''src'', n]) context root st =
     write_files root (planned_files render context (source_tree_group n)) st"
  "generate_tests render root context st =
     write_files root (planned_files render context tests_group) st"
  "generate_root_files render root context st =
     write_files root (planned_files render context root_files_group) st"
  "generate_vscode render root context st =
     write_files root (planned_files render context vscode_group) st"
  "generate_continue render root context st =
     write_files root (planned_files render context continue_group) st"
  "generate_docker render root context st =
     write_files root (planned_files render context docker_group) st"
  "generate_ci render root context st =
     write_files root (planned_files render context ci_group) st"
  "generate_devcontainer render root context st =
     write_files root (planned_files render context devcontainer_group) st"
  "generate_precommit render root context st =
     write_files root (planned_files render context precommit_group) st"
  "generate_diagrams render root context st =
     write_files root (planned_files render context diagrams_group) st"
  by (simp_all add: generate_source_tree_def generate_tests_def generate_root_files_def
      generate_vscode_def generate_continue_def generate_docker_def generate_ci_def
      generate_devcontainer_def generate_precommit_def generate_diagrams_def write_init_def
      group_defs planned_files_def content_of_def write_files_Nil write_files_Cons)

lemma generate_files_plan:
  assumes "name config = Some n" "description config = Some d" "author config = Some a"
  shows "generate_files render config root st =
         write_files root (planned_files render (context_of config n d a) (planned n config)) st"
proof -
  have "generate_files render config root st =
      and_then (generate_source_tree render (root @ [''src'', n]) (context_of config n d a) root st)
      (\<lambda>st. and_then (generate_tests render root (context_of config n d a) st)
      (\<lambda>st. and_then (generate_root_files render root (context_of config n d a) st)
      (\<lambda>st. and_then (generate_vscode render root (context_of config n d a) st)
      (\<lambda>st. and_then (if truthy (continue config)
                       then generate_continue render root (context_of config n d a) st else Inr st)
      (\<lambda>st. and_then (if truthy (docker config)
                       then generate_docker render root (context_of config n d a) st else Inr st)
      (\<lambda>st. and_then (if truthy (ci config)
                       then generate_ci render root (context_of config n d a) st else Inr st)
      (\<lambda>st. and_then (if truthy (devcontainer config)
                       then generate_devcontainer render root (context_of config n d a) st
                       else Inr st)
      (\<lambda>st. and_then (if truthy (precommit config)
                       then generate_precommit render root (context_of config n d a) st
                       else Inr st)
      (\<lambda>st. if truthy (diagrams config)
             then generate_diagrams render root (context_of config n d a) st
             else Inr st)))))))))"
    unfolding generate_files_def context_of_def using assms by (simp add: Let_def)
  also have "\<dots> = write_files root
      (planned_files render (context_of config n d a) (planned n config)) st"
    unfolding group_writes planned_files_gated[symmetric] planned_def planned_files_append
      write_files_append ..
  finally show ?thesis .
qed

lemma planned_paths: "map fst (planned n config) = expected_paths n config"
  by (simp add: planned_def expected_paths_def gated_def truthy_def group_defs)

lemma planned_files_paths: "map fst (planned_files render context plan) = map fst plan"
  by (simp add: planned_files_def case_prod_unfold comp_def)

lemma expected_subset: "set (expected_paths n config) \<subseteq> set (all_paths n)"
  by (auto simp: expected_paths_def all_paths_def group_defs)

lemma all_paths_top: "\<forall>rel\<in>set (all_paths n). rel \<noteq> [] \<and> hd rel \<noteq> ''.git''"
  by (simp add: all_paths_def group_defs)

lemma all_paths_prefix_free: "\<forall>a\<in>set (all_paths n). \<forall>b\<in>set (all_paths n). \<not> strict_prefix a b"
  by (simp add: all_paths_def group_defs)

lemma fresh_top:
  assumes "map_of es k = None"
  shows "(\<forall>r. strict_prefix r (k # ps) \<longrightarrow> \<not> is_file r (Dir es)) \<and> \<not> is_dir (k # ps) (Dir es)"
proof -
  have "\<not> is_file r (Dir es)" if "strict_prefix r (k # ps)" for r
    using that assms by (cases r) auto
  then show ?thesis using assms by simp
qed

lemma usable_fresh:
  assumes "usable root es" "rel \<in> set (all_paths n)"
  shows "\<exists>k ps. root @ rel = k # ps \<and> map_of es k = None"
proof -
  from assms(2) all_paths_top[of n] have "rel \<noteq> []" "hd rel \<noteq> ''.git''" by auto
  then obtain k ps where rel: "rel = k # ps" "k \<noteq> ''.git''"
    by (cases rel) auto
  from assms(1) consider "root = []" "\<not> list_ex (\<lambda>k. k \<noteq> ''.git'') (map fst es)"
    | k' where "root = [k']" "map_of es k' = None" by (auto simp: usable_def)
  then show ?thesis
  proof cases
    case 1
    then have "k \<notin> fst ` set es" using rel(2) by (auto simp: list_ex_iff)
    then have "map_of es k = None" by (simp add: map_of_eq_None_iff)
    with 1 rel show ?thesis by simp
  next
    case 2
    then show ?thesis by simp
  qed
qed

lemma usable_lookup_fresh:
  assumes "usable root es" "k \<noteq> ''.git''"
  shows "lookup (root @ k # ps) (Dir es) = None"
proof -
  from assms(1) consider "root = []" "\<not> list_ex (\<lambda>k. k \<noteq> ''.git'') (map fst es)"
    | k' where "root = [k']" "map_of es k' = None" by (auto simp: usable_def)
  then show ?thesis
  proof cases
    case 1
    then have "k \<notin> fst ` set es" using assms(2) by (auto simp: list_ex_iff)
    then have "map_of es k = None" by (simp add: map_of_eq_None_iff)
    with 1 show ?thesis by simp
  next
    case 2
    then show ?thesis by simp
  qed
qed

lemma destination_usable:
  "destination config (Dir es) = Inr root \<Longrightarrow> usable root es"
  by (auto simp: destination_def usable_def iterdir_def path_exists_def
      split: if_splits option.splits)

lemma generate_files_succeeds:
  assumes "name config = Some n" "description config = Some d" "author config = Some a"
    and "tree st = Dir es" "usable root es"
  shows "\<exists>st'. generate_files render config root st = Inr st'"
proof -
  let ?plan = "planned_files render (context_of config n d a) (planned n config)"
  have paths: "set (map fst ?plan) \<subseteq> set (all_paths n)"
    unfolding planned_files_paths planned_paths by (rule expected_subset)
  have 1: "\<forall>rel\<in>set (map fst ?plan). rel \<noteq> [] \<and>
             (\<forall>r. strict_prefix r (root @ rel) \<longrightarrow> \<not> is_file r (tree st)) \<and>
             \<not> is_dir (root @ rel) (tree st)"
  proof
    fix rel assume "rel \<in> set (map fst ?plan)"
    with paths have rel: "rel \<in> set (all_paths n)" by blast
    with usable_fresh[OF assms(5)] obtain k ps where "root @ rel = k # ps" "map_of es k = None"
      by blast
    with fresh_top[of es k ps] all_paths_top rel assms(4)
    show "rel \<noteq> [] \<and> (\<forall>r. strict_prefix r (root @ rel) \<longrightarrow> \<not> is_file r (tree st)) \<and>
             \<not> is_dir (root @ rel) (tree st)" by auto
  qed
  have 2: "\<forall>a\<in>set (map fst ?plan). \<forall>b\<in>set (map fst ?plan). \<not> strict_prefix a b"
    using paths all_paths_prefix_free by blast
  show ?thesis
    unfolding generate_files_plan[OF assms(1-3)] by (rule write_files_succeeds[OF 1 2])
qed

lemma generate_files_created:
  assumes "name config = Some n" "description config = Some d" "author config = Some a"
    and "generate_files render config root st = Inr st'"
  shows "created st' = created st @ expected_paths n config"
proof -
  let ?plan = "planned_files render (context_of config n d a) (planned n config)"
  from assms(4) have w: "write_files root ?plan st = Inr st'"
    unfolding generate_files_plan[OF assms(1-3)] .
  from write_files_run[of ?plan root st] obtain k where k: "k \<le> length ?plan"
    "created (final_state (write_files root ?plan st)) = created st @ map fst (take k ?plan)"
    "(\<exists>s. write_files root ?plan st = Inr s) \<longleftrightarrow> k = length ?plan" by blast
  from k(3) w have "k = length ?plan" by blast
  with k(2) w show ?thesis
    by (simp add: final_state_def planned_files_paths planned_paths)
qed

lemma generate_files_None:
  "name config = None \<or> description config = None \<or> author config = None \<Longrightarrow>
   generate_files render config root st \<noteq> Inr st'"
  by (auto simp: generate_files_def split: option.splits)

lemma generate_project_Inr:
  assumes "generate_project render config cwd = Inr st"
  obtains n d a root where "name config = Some n" "description config = Some d"
    "author config = Some a" "destination config cwd = Inr root"
    "generate_files render config root \<lparr>tree = cwd, created = []\<rparr> = Inr st"
proof -
  from assms obtain root where r: "destination config cwd = Inr root"
    "generate_files render config root \<lparr>tree = cwd, created = []\<rparr> = Inr st"
    by (auto simp: generate_project_def Let_def split: sum.splits)
  with generate_files_None[of config render root "\<lparr>tree = cwd, created = []\<rparr>" st]
  obtain n d a where "name config = Some n" "description config = Some d" "author config = Some a"
    by (cases "name config"; cases "description config"; cases "author config") auto
  with r that show ?thesis by blast
qed

lemma no_continue_group:
  assumes "continue config \<noteq> Some True"
  shows "[''.continue'', ''config.yaml''] \<notin> set (expected_paths n config)"
    and "\<forall>rel\<in>set (expected_paths n config). \<not> prefix [''.continue''] rel"
  using assms by (auto simp: expected_paths_def)

lemma generate_project_without_continue:
  assumes "continue config \<noteq> Some True" "generate_project render config (Dir es) = Inr st"
  shows "[''.continue'', ''config.yaml''] \<notin> set (created st)"
    and "destination config (Dir es) = Inr root \<Longrightarrow>
         \<not> path_exists (root @ [''.continue'']) (tree st)"
proof -
  from assms(2) obtain n d a root' where g: "name config = Some n" "description config = Some d"
    "author config = Some a" "destination config (Dir es) = Inr root'"
    "generate_files render config root' \<lparr>tree = Dir es, created = []\<rparr> = Inr st"
    by (rule generate_project_Inr)
  from generate_files_created[OF g(1-3,5)] no_continue_group(1)[OF assms(1)]
  show "[''.continue'', ''config.yaml''] \<notin> set (created st)" by simp
  assume "destination config (Dir es) = Inr root"
  with g(4) have root: "root' = root" by simp
  let ?plan = "planned_files render (context_of config n d a) (planned n config)"
  have "\<forall>rel\<in>set (map fst ?plan). \<not> prefix (root @ [''.continue'']) (root @ rel)"
    unfolding planned_files_paths planned_paths using no_continue_group(2)[OF assms(1)] by simp
  from write_files_lookup_other[OF g(5)[unfolded generate_files_plan[OF g(1-3)] root] this]
  have "lookup (root @ [''.continue'']) (tree st) = lookup (root @ [''.continue'']) (Dir es)"
    by simp
  also have "\<dots> = None"
    using usable_lookup_fresh[OF destination_usable[OF g(4)[unfolded root]], of "''.continue''" "[]"]
    by simp
  finally show "\<not> path_exists (root @ [''.continue'']) (tree st)" by (simp add: path_exists_def)
qed

section \<open>The result of a run\<close>

text \<open>
  C1. For a configuration that passed validation and has its description and author,
  every run of \<^verbatim>\<open>generate_project\<close> that returns, returns exactly the thirteen paths that
  are always there followed by the groups of the flags that are true, in the order of
  emission (\<open>expected_paths\<close>); and in a working directory whose destination passed the
  check, the run does return.
\<close>

theorem generate_project_created_paths:
  assumes "name config = Some n" "validate stdlib config = Inr ()"
    and "description config = Some d" "author config = Some a"
  shows "(\<forall>st. generate_project render config cwd = Inr st \<longrightarrow>
            created st = expected_paths n config) \<and>
         (\<forall>es root. cwd = Dir es \<and> destination config cwd = Inr root \<longrightarrow>
            (\<exists>st. generate_project render config cwd = Inr st))"
proof (intro conjI allI impI)
  fix st assume "generate_project render config cwd = Inr st"
  then obtain root where "generate_files render config root \<lparr>tree = cwd, created = []\<rparr> = Inr st"
    by (auto simp: generate_project_def Let_def split: sum.splits)
  from generate_files_created[OF assms(1,3,4) this]
  show "created st = expected_paths n config" by simp
next
  fix es root assume a: "cwd = Dir es \<and> destination config cwd = Inr root"
  then have "usable root es" using destination_usable by blast
  from generate_files_succeeds[OF assms(1,3,4) _ this, of "\<lparr>tree = cwd, created = []\<rparr>" render] a
  show "\<exists>st. generate_project render config cwd = Inr st"
    by (auto simp: generate_project_def Let_def)
qed

text \<open>
  The theorem for the project \<^verbatim>\<open>demo\<close> with CI, pre-commit and diagrams, in a working
  directory that holds other things.
\<close>

theorem generate_project_created_paths_witness:
  "validate stdlib_sample complete_config = Inr () \<and>
   destination complete_config sample_cwd = Inr [''demo''] \<and>
   (\<exists>st. generate_project sample_render complete_config sample_cwd = Inr st \<and>
      created st =
        [[''src'', ''demo'', ''__init__.py''], [''src'', ''demo'', ''__main__.py''],
         [''src'', ''demo'', ''main.py''], [''tests'', ''__init__.py''],
         [''tests'', ''conftest.py''], [''tests'', ''test_main.py''], [''pyproject.toml''],
         [''README.md''], [''.gitignore''], [''Makefile''], [''.env''],
         [''.vscode'', ''launch.json''], [''.vscode'', ''settings.json''],
         [''.github'', ''workflows'', ''ci.yml''], [''.pre-commit-config.yaml''],
         [''docs'', ''diagrams'', ''class_diagram.puml'']])"
proof -
  have v: "validate stdlib_sample complete_config = Inr ()"
    by (simp add: validate_defs re_defs char_defs complete_config_def stdlib_sample_def)
  have d: "destination complete_config sample_cwd = Inr [''demo'']"
    by (simp add: destination_def complete_config_def sample_cwd_def path_exists_def truthy_def)
  have p: "name complete_config = Some ''demo''" "description complete_config = Some ''A demo''"
    "author complete_config = Some ''Ada''"
    by (simp_all add: complete_config_def)
  note T = generate_project_created_paths[OF p(1) v p(2) p(3), of sample_render sample_cwd]
  from T d obtain st where st: "generate_project sample_render complete_config sample_cwd = Inr st"
    unfolding sample_cwd_def by blast
  with T have "created st = expected_paths ''demo'' complete_config" by blast
  then have "created st =
        [[''src'', ''demo'', ''__init__.py''], [''src'', ''demo'', ''__main__.py''],
         [''src'', ''demo'', ''main.py''], [''tests'', ''__init__.py''],
         [''tests'', ''conftest.py''], [''tests'', ''test_main.py''], [''pyproject.toml''],
         [''README.md''], [''.gitignore''], [''Makefile''], [''.env''],
         [''.vscode'', ''launch.json''], [''.vscode'', ''settings.json''],
         [''.github'', ''workflows'', ''ci.yml''], [''.pre-commit-config.yaml''],
         [''docs'', ''diagrams'', ''class_diagram.puml'']]"
    by (simp add: expected_paths_def complete_config_def)
  with v d st show ?thesis by blast
qed

text \<open>
  C2. Without the current-directory flag, a name that exists in the working directory
  (as a file or as a directory) ends the run with the message that the directory exists,
  in the state of the start: nothing created, the tree as it was. With the flag, an
  entry of the working directory whose name is not \<^verbatim>\<open>.git\<close> ends the run with the message
  that the directory is not empty, in the state of the start. With the flag and no entry
  but \<^verbatim>\<open>.git\<close>, the run returns the expected paths and leaves \<^verbatim>\<open>.git\<close> as it was.
\<close>

theorem generate_project_destination:
  "(\<not> truthy (use_cwd config) \<and> name config = Some n \<and> path_exists [n] cwd \<longrightarrow>
      generate_project render config cwd =
        Inl (FileExistsError (DirectoryAlreadyExists n), \<lparr>tree = cwd, created = []\<rparr>)) \<and>
   (truthy (use_cwd config) \<and> (\<exists>k\<in>set (map fst es). k \<noteq> ''.git'') \<longrightarrow>
      generate_project render config (Dir es) =
        Inl (FileExistsError CurrentDirectoryNotEmpty, \<lparr>tree = Dir es, created = []\<rparr>)) \<and>
   (truthy (use_cwd config) \<and> (\<forall>k\<in>set (map fst es). k = ''.git'') \<and>
    name config = Some n \<and> description config = Some d \<and> author config = Some a \<longrightarrow>
      (\<exists>st. generate_project render config (Dir es) = Inr st \<and>
            created st = expected_paths n config \<and>
            lookup [''.git''] (tree st) = lookup [''.git''] (Dir es)))"
proof (intro conjI impI)
  assume "\<not> truthy (use_cwd config) \<and> name config = Some n \<and> path_exists [n] cwd"
  then show "generate_project render config cwd =
        Inl (FileExistsError (DirectoryAlreadyExists n), \<lparr>tree = cwd, created = []\<rparr>)"
    by (simp add: generate_project_def destination_def)
next
  assume "truthy (use_cwd config) \<and> (\<exists>k\<in>set (map fst es). k \<noteq> ''.git'')"
  then have "truthy (use_cwd config)" "list_ex (\<lambda>k. k \<noteq> ''.git'') (map fst es)"
    by (auto simp: list_ex_iff)
  then show "generate_project render config (Dir es) =
        Inl (FileExistsError CurrentDirectoryNotEmpty, \<lparr>tree = Dir es, created = []\<rparr>)"
    by (simp add: generate_project_def destination_def iterdir_def)
next
  assume a: "truthy (use_cwd config) \<and> (\<forall>k\<in>set (map fst es). k = ''.git'') \<and>
    name config = Some n \<and> description config = Some d \<and> author config = Some a"
  then have ne: "\<not> list_ex (\<lambda>k. k \<noteq> ''.git'') (map fst es)" by (auto simp: list_ex_iff)
  with a have dest: "destination config (Dir es) = Inr []"
    by (simp add: destination_def iterdir_def)
  from ne have us: "usable [] es" by (simp add: usable_def)
  from a have pop: "name config = Some n" "description config = Some d" "author config = Some a"
    by simp_all
  let ?st0 = "\<lparr>tree = Dir es, created = []\<rparr>"
  from generate_files_succeeds[OF pop _ us, of ?st0 render]
  obtain st where st: "generate_files render config [] ?st0 = Inr st" by auto
  have cr: "created st = expected_paths n config"
    using generate_files_created[OF pop st] by simp
  have git: "lookup [''.git''] (tree st) = lookup [''.git''] (Dir es)"
  proof -
    let ?plan = "planned_files render (context_of config n d a) (planned n config)"
    have "\<not> prefix [''.git''] ([] @ rel)" if "rel \<in> set (map fst ?plan)" for rel
    proof -
      from that have "rel \<in> set (all_paths n)"
        unfolding planned_files_paths planned_paths using expected_subset by blast
      with all_paths_top[of n] have "rel \<noteq> []" "hd rel \<noteq> ''.git''" by auto
      then show ?thesis by (cases rel) auto
    qed
    then have "\<forall>rel\<in>set (map fst ?plan). \<not> prefix [''.git''] ([] @ rel)" by blast
    from write_files_lookup_other[OF st[unfolded generate_files_plan[OF pop]] this]
    show ?thesis by simp
  qed
  from st dest cr git show "\<exists>st. generate_project render config (Dir es) = Inr st \<and>
            created st = expected_paths n config \<and>
            lookup [''.git''] (tree st) = lookup [''.git''] (Dir es)"
    by (simp add: generate_project_def)
qed

text \<open>
  The theorem in three working directories: one that holds \<^verbatim>\<open>demo\<close>, one that holds a
  file of notes, one that holds \<^verbatim>\<open>.git\<close> alone.
\<close>

theorem generate_project_destination_witness:
  "generate_project sample_render complete_config taken_cwd =
     Inl (FileExistsError (DirectoryAlreadyExists ''demo''), \<lparr>tree = taken_cwd, created = []\<rparr>) \<and>
   generate_project sample_render (complete_config\<lparr>use_cwd := Some True\<rparr>) sample_cwd =
     Inl (FileExistsError CurrentDirectoryNotEmpty, \<lparr>tree = sample_cwd, created = []\<rparr>) \<and>
   (\<exists>st. generate_project sample_render (complete_config\<lparr>use_cwd := Some True\<rparr>) git_only_cwd =
           Inr st \<and>
         created st = expected_paths ''demo'' complete_config \<and>
         lookup [''.git''] (tree st) = Some (Dir [(''HEAD'', File ''ref'')]))"
proof -
  have 1: "generate_project sample_render complete_config taken_cwd =
     Inl (FileExistsError (DirectoryAlreadyExists ''demo''), \<lparr>tree = taken_cwd, created = []\<rparr>)"
    using generate_project_destination[where config = complete_config and n = "''demo''"
        and cwd = taken_cwd and render = sample_render]
    by (simp add: complete_config_def taken_cwd_def truthy_def path_exists_def)
  have 2: "generate_project sample_render (complete_config\<lparr>use_cwd := Some True\<rparr>) sample_cwd =
     Inl (FileExistsError CurrentDirectoryNotEmpty, \<lparr>tree = sample_cwd, created = []\<rparr>)"
    using generate_project_destination[where config = "complete_config\<lparr>use_cwd := Some True\<rparr>"
        and es = "[(''.git'', Dir [(''HEAD'', File ''ref'')]), (''notes.txt'', File ''hello'')]"
        and render = sample_render]
    by (simp add: sample_cwd_def truthy_def)
  have 3: "\<exists>st. generate_project sample_render (complete_config\<lparr>use_cwd := Some True\<rparr>)
             git_only_cwd = Inr st \<and>
         created st = expected_paths ''demo'' (complete_config\<lparr>use_cwd := Some True\<rparr>) \<and>
         lookup [''.git''] (tree st) = lookup [''.git''] git_only_cwd"
    using generate_project_destination[where config = "complete_config\<lparr>use_cwd := Some True\<rparr>"
        and es = "[(''.git'', Dir [(''HEAD'', File ''ref'')])]" and n = "''demo''"
        and d = "''A demo''" and a = "''Ada''" and render = sample_render]
    by (simp add: git_only_cwd_def truthy_def complete_config_def)
  have "expected_paths ''demo'' (complete_config\<lparr>use_cwd := Some True\<rparr>) =
      expected_paths ''demo'' complete_config"
    by (simp add: expected_paths_def)
  moreover have "lookup [''.git''] git_only_cwd = Some (Dir [(''HEAD'', File ''ref'')])"
    by (simp add: git_only_cwd_def)
  ultimately show ?thesis using 1 2 3 by simp
qed

section \<open>The entries of the result and the files written\<close>

text \<open>
  C9. Wherever the writes of \<^verbatim>\<open>generate_project\<close> end, started in any state, by the
  \<^verbatim>\<open>return\<close> or by an exception of the file system: the entries appended to \<open>created\<close>
  are the relative paths of the first \<open>k\<close> files of the table, in its order; the files of
  the tree are the files it had with exactly those \<open>k\<close> written below the root, each with
  its content; the parents of those \<open>k\<close> are directories; and the run returns exactly
  when \<open>k\<close> is the whole table.
\<close>

theorem generate_files_entries_are_written:
  assumes "name config = Some n" "description config = Some d" "author config = Some a"
  shows "let plan = planned_files render (context_of config n d a) (planned n config);
             st' = final_state (generate_files render config root st)
         in \<exists>k\<le>length plan.
              created st' = created st @ map fst (take k plan) \<and>
              (\<lambda>r. read_text r (tree st')) =
                (\<lambda>r. read_text r (tree st)) ++ map_of (written root (take k plan)) \<and>
              (\<forall>rel\<in>set (map fst (take k plan)). \<forall>r. strict_prefix r (root @ rel) \<longrightarrow>
                 is_dir r (tree st')) \<and>
              ((\<exists>s. generate_files render config root st = Inr s) \<longleftrightarrow> k = length plan)"
  unfolding Let_def generate_files_plan[OF assms] by (rule write_files_run)

lemmas gen_defs = generate_files_def generate_source_tree_def generate_tests_def
  generate_root_files_def generate_vscode_def generate_continue_def generate_docker_def
  generate_ci_def generate_devcontainer_def generate_precommit_def generate_diagrams_def
  write_init_def write_file_def relative_to_def truthy_def

text \<open>
  In a working directory where \<^verbatim>\<open>README.md\<close> is a directory the run ends at its eighth
  file with \<^verbatim>\<open>IsADirectoryError\<close>; seven files are written and seven entries appended.
\<close>

lemma blocked_run:
  "generate_files sample_render complete_config [] \<lparr>tree = blocked_cwd, created = []\<rparr> =
     Inl (IsADirectoryError,
       \<lparr>tree = Dir [(''.git'', Dir []), (''README.md'', Dir []),
           (''src'', Dir [(''demo'', Dir [(''__init__.py'', File ''base/init.py.j2 for demo''),
              (''__main__.py'', File ''base/__main__.py.j2 for demo''),
              (''main.py'', File ''base/main.py.j2 for demo'')])]),
           (''tests'', Dir [(''__init__.py'', File []),
              (''conftest.py'', File ''base/conftest.py.j2 for demo''),
              (''test_main.py'', File ''base/test_main.py.j2 for demo'')]),
           (''pyproject.toml'', File ''base/pyproject.toml.j2 for demo'')],
        created = [[''src'', ''demo'', ''__init__.py''], [''src'', ''demo'', ''__main__.py''],
           [''src'', ''demo'', ''main.py''], [''tests'', ''__init__.py''],
           [''tests'', ''conftest.py''], [''tests'', ''test_main.py''], [''pyproject.toml'']]\<rparr>)"
  by (simp add: gen_defs complete_config_def blocked_cwd_def sample_render_def Let_def)

text \<open>The theorem at that run: \<open>k\<close> is seven.\<close>

theorem generate_files_entries_are_written_witness:
  "created (final_state
      (generate_files sample_render complete_config [] \<lparr>tree = blocked_cwd, created = []\<rparr>)) =
     [[''src'', ''demo'', ''__init__.py''], [''src'', ''demo'', ''__main__.py''],
      [''src'', ''demo'', ''main.py''], [''tests'', ''__init__.py''],
      [''tests'', ''conftest.py''], [''tests'', ''test_main.py''], [''pyproject.toml'']] \<and>
   (\<lambda>r. read_text r (tree (final_state
      (generate_files sample_render complete_config [] \<lparr>tree = blocked_cwd, created = []\<rparr>)))) =
     (\<lambda>r. read_text r blocked_cwd) ++
       map_of (written [] (take 7 (planned_files sample_render
         (context_of complete_config ''demo'' ''A demo'' ''Ada'') (planned ''demo'' complete_config)))) \<and>
   \<not> (\<exists>s. generate_files sample_render complete_config [] \<lparr>tree = blocked_cwd, created = []\<rparr> =
          Inr s)"
proof -
  let ?st0 = "\<lparr>tree = blocked_cwd, created = []\<rparr>"
  let ?plan = "planned_files sample_render (context_of complete_config ''demo'' ''A demo'' ''Ada'')
     (planned ''demo'' complete_config)"
  let ?fin = "final_state (generate_files sample_render complete_config [] ?st0)"
  have p: "name complete_config = Some ''demo''" "description complete_config = Some ''A demo''"
    "author complete_config = Some ''Ada''"
    by (simp_all add: complete_config_def)
  have c: "created ?fin =
     [[''src'', ''demo'', ''__init__.py''], [''src'', ''demo'', ''__main__.py''],
      [''src'', ''demo'', ''main.py''], [''tests'', ''__init__.py''],
      [''tests'', ''conftest.py''], [''tests'', ''test_main.py''], [''pyproject.toml'']]"
    unfolding blocked_run by (simp add: final_state_def)
  from generate_files_entries_are_written[OF p, of sample_render "[]" ?st0]
  obtain k where k: "k \<le> length ?plan" "created ?fin = created ?st0 @ map fst (take k ?plan)"
    "(\<lambda>r. read_text r (tree ?fin)) =
       (\<lambda>r. read_text r (tree ?st0)) ++ map_of (written [] (take k ?plan))"
    "(\<exists>s. generate_files sample_render complete_config [] ?st0 = Inr s) \<longleftrightarrow> k = length ?plan"
    unfolding Let_def by blast
  have "map fst (take k ?plan) =
     [[''src'', ''demo'', ''__init__.py''], [''src'', ''demo'', ''__main__.py''],
      [''src'', ''demo'', ''main.py''], [''tests'', ''__init__.py''],
      [''tests'', ''conftest.py''], [''tests'', ''test_main.py''], [''pyproject.toml'']]"
    using k(2) unfolding c by simp
  then have "length (map fst (take k ?plan)) = 7" by simp
  with k(1) have k7: "k = 7" by simp
  have len: "length ?plan = 16"
    by (simp add: planned_files_def planned_def gated_def truthy_def group_defs complete_config_def)
  have r: "(\<lambda>r. read_text r (tree ?fin)) =
       (\<lambda>r. read_text r blocked_cwd) ++ map_of (written [] (take 7 ?plan))"
    using k(3) unfolding k7 by simp
  have "\<not> (\<exists>s. generate_files sample_render complete_config [] ?st0 = Inr s)"
    unfolding k(4) k7 len by simp
  with c r show ?thesis by (intro conjI)
qed

section \<open>The flag that no prompt asks for\<close>

text \<open>
  C4. \<^verbatim>\<open>prompt_for_config\<close> has no prompt for the flag \<^verbatim>\<open>continue\<close>: a configuration
  without the flag leaves the interactive branch of \<^verbatim>\<open>new\<close> without it. A run of
  \<^verbatim>\<open>generate_project\<close> on that configuration that returns has no entry for
  \<^verbatim>\<open>.continue/config.yaml\<close> and leaves no \<^verbatim>\<open>.continue\<close> below the root. Each of the other
  five flags that is not given is asked for, and the return key alone gives true.
\<close>

theorem prompt_for_config_never_asks_continue:
  assumes "continue config = None"
  shows "continue (prompt_for_config D r config) = None \<and>
         resolve_config D r False config = prompt_for_config D r config \<and>
         (\<forall>render es st. generate_project render (prompt_for_config D r config) (Dir es) = Inr st \<longrightarrow>
            [''.continue'', ''config.yaml''] \<notin> set (created st) \<and>
            (\<forall>root. destination (prompt_for_config D r config) (Dir es) = Inr root \<longrightarrow>
               \<not> path_exists (root @ [''.continue'']) (tree st))) \<and>
         (ci config = None \<longrightarrow> ci (prompt_for_config D r config) = Some (ask (reply_ci r) True)) \<and>
         (devcontainer config = None \<longrightarrow>
            devcontainer (prompt_for_config D r config) = Some (ask (reply_devcontainer r) True)) \<and>
         (precommit config = None \<longrightarrow>
            precommit (prompt_for_config D r config) = Some (ask (reply_precommit r) True)) \<and>
         (docker config = None \<longrightarrow>
            docker (prompt_for_config D r config) = Some (ask (reply_docker r) True)) \<and>
         (diagrams config = None \<longrightarrow>
            diagrams (prompt_for_config D r config) = Some (ask (reply_diagrams r) True)) \<and>
         ask None True = True"
proof -
  have c: "continue (prompt_for_config D r config) = None"
    unfolding prompt_for_config_fields using assms by simp
  then have nt: "continue (prompt_for_config D r config) \<noteq> Some True" by simp
  have flags: "ci config = None \<longrightarrow> ci (prompt_for_config D r config) = Some (ask (reply_ci r) True)"
    "devcontainer config = None \<longrightarrow>
       devcontainer (prompt_for_config D r config) = Some (ask (reply_devcontainer r) True)"
    "precommit config = None \<longrightarrow>
       precommit (prompt_for_config D r config) = Some (ask (reply_precommit r) True)"
    "docker config = None \<longrightarrow>
       docker (prompt_for_config D r config) = Some (ask (reply_docker r) True)"
    "diagrams config = None \<longrightarrow>
       diagrams (prompt_for_config D r config) = Some (ask (reply_diagrams r) True)"
    unfolding prompt_for_config_fields by simp_all
  have gen: "\<forall>render es st.
      generate_project render (prompt_for_config D r config) (Dir es) = Inr st \<longrightarrow>
        [''.continue'', ''config.yaml''] \<notin> set (created st) \<and>
        (\<forall>root. destination (prompt_for_config D r config) (Dir es) = Inr root \<longrightarrow>
           \<not> path_exists (root @ [''.continue'']) (tree st))"
    using generate_project_without_continue[OF nt] by blast
  have "resolve_config D r False config = prompt_for_config D r config"
    by (simp add: resolve_config_def)
  moreover have "ask None True = True" by (simp add: ask_def)
  ultimately show ?thesis using c flags gen by blast
qed

lemma prompted_sample:
  "prompt_for_config sample_defaults sample_replies (cli_args (Some ''demo'')) =
     \<lparr>name = Some ''demo'', description = Some ''A Python project'', author = Some ''Your Name'',
      python = Some ''3.14'', ci = Some True, devcontainer = Some False, precommit = Some True,
      docker = Some True, diagrams = Some True, continue = None, use_cwd = None\<rparr>"
  unfolding prompt_for_config_fields
  by (simp add: cli_args_def sample_defaults_def sample_replies_def ask_def)

text \<open>
  The theorem for a command line that gives the name \<^verbatim>\<open>demo\<close> alone and a user who
  declines the devcontainer and presses the return key at every other prompt.
\<close>

theorem prompt_for_config_never_asks_continue_witness:
  "continue (cli_args (Some ''demo'')) = None \<and>
   continue (prompt_for_config sample_defaults sample_replies (cli_args (Some ''demo''))) = None \<and>
   ci (prompt_for_config sample_defaults sample_replies (cli_args (Some ''demo''))) = Some True \<and>
   devcontainer (prompt_for_config sample_defaults sample_replies (cli_args (Some ''demo''))) =
     Some False \<and>
   (\<exists>st. generate_project sample_render
           (prompt_for_config sample_defaults sample_replies (cli_args (Some ''demo''))) sample_cwd =
           Inr st \<and>
         [''.continue'', ''config.yaml''] \<notin> set (created st) \<and>
         \<not> path_exists [''demo'', ''.continue''] (tree st))"
proof -
  let ?c = "prompt_for_config sample_defaults sample_replies (cli_args (Some ''demo''))"
  have n: "continue (cli_args (Some ''demo'')) = None" "ci (cli_args (Some ''demo'')) = None"
    "devcontainer (cli_args (Some ''demo'')) = None"
    by (simp_all add: cli_args_def)
  note T = prompt_for_config_never_asks_continue[OF n(1), of sample_defaults sample_replies]
  have d: "destination ?c sample_cwd = Inr [''demo'']"
    unfolding prompted_sample
    by (simp add: destination_def sample_cwd_def path_exists_def truthy_def)
  have "\<exists>st. generate_files sample_render ?c [''demo''] \<lparr>tree = sample_cwd, created = []\<rparr> = Inr st"
    unfolding sample_cwd_def
    by (rule generate_files_succeeds[where n = "''demo''" and d = "''A Python project''"
          and a = "''Your Name''"
          and es = "[(''.git'', Dir [(''HEAD'', File ''ref'')]), (''notes.txt'', File ''hello'')]"])
       (simp_all add: prompted_sample usable_def)
  with d obtain st where st: "generate_project sample_render ?c sample_cwd = Inr st"
    by (auto simp: generate_project_def)
  from T st d have "[''.continue'', ''config.yaml''] \<notin> set (created st) \<and>
      \<not> path_exists ([''demo''] @ [''.continue'']) (tree st)"
    unfolding sample_cwd_def by blast
  moreover from T n have "continue ?c = None" "ci ?c = Some (ask (reply_ci sample_replies) True)"
    "devcontainer ?c = Some (ask (reply_devcontainer sample_replies) True)" by blast+
  ultimately show ?thesis using n(1) st by (auto simp: sample_replies_def ask_def)
qed

end
